theory Spec2Isabelle
  imports Complex_Main
begin

section \<open>Python values used by the example scripts\<close>

text \<open>
  The two scripts under \<^verbatim>\<open>src/examples\<close> are Python. Python integers are unbounded and
  are modelled by \<^typ>\<open>int\<close>; strings are modelled by \<^typ>\<open>string\<close> and stand for ASCII
  text. An exception that \<^verbatim>\<open>except Exception\<close> catches is a value of \<open>pyexc\<close>, and a
  computation that may raise returns \<open>pyexc + 'a\<close> with \<open>Inl\<close> for the raised exception.
\<close>

datatype pyexc =
    ValueError string
  | KeyError string
  | OverflowError string
  | AttributeError string
  | EOFError
  | RuntimeFault string

text \<open>
  \<open>str(e)\<close> for an exception. \<open>str\<close> of a \<open>KeyError\<close> is the \<open>repr\<close> of the missing
  key; the model quotes the key, which is what \<open>repr\<close> gives for a key without quotes,
  backslashes and control characters.
\<close>

fun str_exc :: "pyexc \<Rightarrow> string" where
  "str_exc (ValueError m) = m"
| "str_exc (KeyError k) = [CHR 0x27] @ k @ [CHR 0x27]"
| "str_exc (OverflowError m) = m"
| "str_exc (AttributeError m) = m"
| "str_exc EOFError = ''EOF when reading a line''"
| "str_exc (RuntimeFault m) = m"

subsection \<open>Rendering integers\<close>

text \<open>\<open>str(n)\<close> for an integer: its decimal digits, with a minus sign when negative.\<close>

definition digit_char :: "nat \<Rightarrow> char" where
  "digit_char n = ''0123456789'' ! n"

function str_nat :: "nat \<Rightarrow> string" where
  "str_nat n = (if n < 10 then [digit_char n] else str_nat (n div 10) @ [digit_char (n mod 10)])"
  by pat_completeness auto
termination
  by (relation "measure id") auto

definition str_int :: "int \<Rightarrow> string" where
  "str_int i = (if i < 0 then CHR ''-'' # str_nat (nat (- i)) else str_nat (nat i))"

subsection \<open>Strings: \<^verbatim>\<open>repr\<close>, \<^verbatim>\<open>strip\<close>, \<^verbatim>\<open>lower\<close>\<close>

text \<open>
  \<open>repr(s)\<close> of a string, as it appears in the message of a \<open>ValueError\<close>: the string
  between single quotes (exact for a string without quotes, backslashes and control
  characters).
\<close>

definition py_repr :: "string \<Rightarrow> string" where
  "py_repr s = [CHR 0x27] @ s @ [CHR 0x27]"

text \<open>
  \<open>str.isspace\<close> on an ASCII character: tab, line feed, vertical tab, form feed,
  carriage return, the separators 0x1C to 0x1F, and the space.
\<close>

definition py_isspace :: "char \<Rightarrow> bool" where
  "py_isspace c = (let n = (of_char c :: nat) in (9 \<le> n \<and> n \<le> 13) \<or> (28 \<le> n \<and> n \<le> 32))"

text \<open>
  The white space that \<open>int(s)\<close> and \<open>float(s)\<close> skip around a number: of the ASCII
  characters, the tab, line feed, vertical tab, form feed, carriage return and space,
  but not the separators 0x1C to 0x1F.
\<close>

definition is_number_space :: "char \<Rightarrow> bool" where
  "is_number_space c = (let n = (of_char c :: nat) in (9 \<le> n \<and> n \<le> 13) \<or> n = 32)"

text \<open>Dropping the characters of a kind at both ends; \<open>s.strip()\<close> drops white space.\<close>

definition strip_with :: "(char \<Rightarrow> bool) \<Rightarrow> string \<Rightarrow> string" where
  "strip_with P s = rev (dropWhile P (rev (dropWhile P s)))"

definition py_strip :: "string \<Rightarrow> string" where
  "py_strip s = strip_with py_isspace s"

definition py_lower_char :: "char \<Rightarrow> char" where
  "py_lower_char c =
     (case map_of (zip ''ABCDEFGHIJKLMNOPQRSTUVWXYZ'' ''abcdefghijklmnopqrstuvwxyz'') c of
        Some l \<Rightarrow> l
      | None \<Rightarrow> c)"

definition py_lower :: "string \<Rightarrow> string" where
  "py_lower s = map py_lower_char s"

subsection \<open>\<^verbatim>\<open>int(s)\<close> on a string\<close>

text \<open>
  \<open>int(s)\<close> skips the white space around the number, reads an optional sign and then
  decimal digits, where single underscores may separate digits; anything else raises
  \<open>ValueError\<close>. So does a run of more than 4300 digits (the default of
  \<open>sys.set_int_max_str_digits\<close>), which is counted as soon as the run has been read and
  does not end in an underscore, before what follows the run is looked at.
\<close>

definition is_digit :: "char \<Rightarrow> bool" where
  "is_digit c = (let n = (of_char c :: nat) in 48 \<le> n \<and> n \<le> 57)"

definition digit_val :: "char \<Rightarrow> nat" where
  "digit_val c = of_char c - 48"

text \<open>
  The digits that follow a first digit: \<open>(["_"] digit)*\<close>. The result is the digits
  read and the rest of the string.
\<close>

fun digitpart_tail :: "string \<Rightarrow> string \<times> string" where
  "digitpart_tail [] = ([], [])"
| "digitpart_tail [c] = (if is_digit c then ([c], []) else ([], [c]))"
| "digitpart_tail (c # d # cs) =
     (if is_digit c then (case digitpart_tail (d # cs) of (ds, r) \<Rightarrow> (c # ds, r))
      else if c = CHR ''_'' \<and> is_digit d then (case digitpart_tail cs of (ds, r) \<Rightarrow> (d # ds, r))
      else ([], c # d # cs))"

text \<open>\<open>digitpart ::= digit (["_"] digit)*\<close>\<close>

definition digitpart :: "string \<Rightarrow> (string \<times> string) option" where
  "digitpart s =
     (case s of [] \<Rightarrow> None
      | c # cs \<Rightarrow> if is_digit c then (case digitpart_tail cs of (ds, r) \<Rightarrow> Some (c # ds, r)) else None)"

definition digits_val :: "string \<Rightarrow> nat" where
  "digits_val ds = foldl (\<lambda>acc c. 10 * acc + digit_val c) 0 ds"

text \<open>An optional sign: \<open>True\<close> for a minus sign.\<close>

definition take_sign :: "string \<Rightarrow> bool \<times> string" where
  "take_sign s =
     (case s of [] \<Rightarrow> (False, [])
      | c # cs \<Rightarrow> if c = CHR ''-'' then (True, cs) else if c = CHR ''+'' then (False, cs) else (False, s))"

definition invalid_literal :: "string \<Rightarrow> pyexc" where
  "invalid_literal s = ValueError (''invalid literal for int() with base 10: '' @ py_repr s)"

definition exceeds_limit :: "nat \<Rightarrow> pyexc" where
  "exceeds_limit k =
     ValueError (''Exceeds the limit (4300 digits) for integer string conversion: value has ''
       @ str_nat k @ '' digits; use sys.set_int_max_str_digits() to increase the limit'')"

definition py_int :: "string \<Rightarrow> pyexc + int" where
  "py_int s =
     (case take_sign (strip_with is_number_space s) of (neg, body) \<Rightarrow>
      case digitpart body of
        None \<Rightarrow> Inl (invalid_literal s)
      | Some (ds, r) \<Rightarrow>
          if take 1 r = ''_'' then Inl (invalid_literal s)
          else if 4300 < length ds then Inl (exceeds_limit (length ds))
          else if r = [] then Inr (if neg then - int (digits_val ds) else int (digits_val ds))
          else Inl (invalid_literal s))"

subsection \<open>Floats and \<^verbatim>\<open>float(s)\<close> on a string\<close>

text \<open>
  A Python float is an IEEE 754 binary64 value: a finite value (kept as the rational
  number it denotes; the two zeros are not told apart), an infinity, or a NaN.
\<close>

datatype pyfloat = Finite rat | PosInf | NegInf | NaN

text \<open>The comparison \<open>a < b\<close> of two floats: false whenever one of them is a NaN.\<close>

fun py_lt :: "pyfloat \<Rightarrow> pyfloat \<Rightarrow> bool" where
  "py_lt NaN _ = False"
| "py_lt _ NaN = False"
| "py_lt (Finite a) (Finite b) = (a < b)"
| "py_lt (Finite a) PosInf = True"
| "py_lt (Finite a) NegInf = False"
| "py_lt PosInf _ = False"
| "py_lt NegInf (Finite b) = True"
| "py_lt NegInf PosInf = True"
| "py_lt NegInf NegInf = False"

text \<open>
  Rounding the positive rational \<open>a / b\<close> to the nearest binary64 value, ties to even:
  53 significant bits, the least exponent -1022 (below it the values are subnormal),
  and an infinity from \<open>2 ^ 1024\<close> on.
\<close>

function bit_length :: "nat \<Rightarrow> nat" where
  "bit_length n = (if n = 0 then 0 else Suc (bit_length (n div 2)))"
  by pat_completeness auto
termination
  by (relation "measure id") auto

definition pow2 :: "int \<Rightarrow> rat" where
  "pow2 e = (if 0 \<le> e then 2 ^ nat e else 1 / 2 ^ nat (- e))"

definition round_half_even :: "nat \<Rightarrow> nat \<Rightarrow> nat" where
  "round_half_even num den =
     (let q = num div den; r = num mod den
      in if 2 * r < den then q else if den < 2 * r then q + 1
         else if even q then q else q + 1)"

definition round_binary64 :: "nat \<Rightarrow> nat \<Rightarrow> rat option" where
  "round_binary64 a b =
     (if a = 0 then Some 0 else
      let d = int (bit_length a) - int (bit_length b);
          ge = (if 0 \<le> d then b * 2 ^ nat d \<le> a else b \<le> a * 2 ^ nat (- d));
          e = (if ge then d else d - 1)
      in if 1024 \<le> e then None else
      let s = max e (- 1022) - 52;
          m = (if 0 \<le> s then round_half_even a (b * 2 ^ nat s)
               else round_half_even (a * 2 ^ nat (- s)) b)
      in if m = 2 ^ 53 \<and> e = 1023 then None else Some (of_nat m * pow2 s))"

text \<open>
  The grammar of \<open>float(s)\<close>, between the white space that it skips:
  \<^verbatim>\<open>[sign] (floatnumber | "inf" | "infinity" | "nan")\<close>, the words in any case, with
  \<^verbatim>\<open>floatnumber ::= ([digitpart] "." digitpart | digitpart ["."]) [("e" | "E") [sign] digitpart]\<close>.
  The result of \<open>number\<close> is the digits before the point, the digits after it, and the
  rest of the string.
\<close>

definition number :: "string \<Rightarrow> (string \<times> string \<times> string) option" where
  "number s =
     (case digitpart s of
        Some (ip, r) \<Rightarrow>
          (case r of
             [] \<Rightarrow> Some (ip, [], [])
           | c # r' \<Rightarrow>
               if c = CHR ''.'' then
                 (case digitpart r' of Some (fp, r'') \<Rightarrow> Some (ip, fp, r'') | None \<Rightarrow> Some (ip, [], r'))
               else Some (ip, [], r))
      | None \<Rightarrow>
          (case s of
             [] \<Rightarrow> None
           | c # r' \<Rightarrow>
               if c = CHR ''.'' then
                 (case digitpart r' of Some (fp, r'') \<Rightarrow> Some ([], fp, r'') | None \<Rightarrow> None)
               else None))"

text \<open>The exponent part, which must end the string: \<open>None\<close> when it is malformed.\<close>

definition exponent :: "string \<Rightarrow> int option" where
  "exponent s =
     (case s of
        [] \<Rightarrow> Some 0
      | c # r \<Rightarrow>
          if c = CHR ''e'' \<or> c = CHR ''E'' then
            (case take_sign r of (neg, body) \<Rightarrow>
             case digitpart body of
               Some (ds, []) \<Rightarrow> Some (if neg then - int (digits_val ds) else int (digits_val ds))
             | _ \<Rightarrow> None)
          else None)"

definition floatnumber :: "string \<Rightarrow> (nat \<times> nat) option" where
  "floatnumber s =
     (case number s of
        None \<Rightarrow> None
      | Some (ip, fp, r) \<Rightarrow>
          (case exponent r of
             None \<Rightarrow> None
           | Some ex \<Rightarrow>
               let mant = digits_val (ip @ fp); e10 = ex - int (length fp)
               in Some (if 0 \<le> e10 then (mant * 10 ^ nat e10, 1) else (mant, 10 ^ nat (- e10)))))"

definition py_float :: "string \<Rightarrow> pyfloat option" where
  "py_float s =
     (case take_sign (strip_with is_number_space s) of (neg, body) \<Rightarrow>
      let w = py_lower body in
      if w = ''inf'' \<or> w = ''infinity'' then Some (if neg then NegInf else PosInf)
      else if w = ''nan'' then Some NaN
      else
        (case floatnumber body of
           None \<Rightarrow> None
         | Some (a, b) \<Rightarrow>
             (case round_binary64 a b of
                None \<Rightarrow> Some (if neg then NegInf else PosInf)
              | Some v \<Rightarrow> Some (Finite (if neg then - v else v)))))"

section \<open>The calendar of \<^verbatim>\<open>datetime.date\<close>\<close>

text \<open>
  \<^verbatim>\<open>get_nth_weekend_dates\<close> uses \<^verbatim>\<open>date(year, month, 1)\<close>, \<^verbatim>\<open>date.weekday()\<close>,
  \<^verbatim>\<open>date + timedelta(days=k)\<close> and the attributes \<^verbatim>\<open>month\<close> and \<^verbatim>\<open>day\<close>. A date is a
  day of the proleptic Gregorian calendar with a year from 1 to 9999. The constructor
  raises \<open>ValueError\<close> outside that range, and an addition whose result leaves the range
  raises \<open>OverflowError\<close>, as does a \<open>timedelta\<close> of more than 999999999 days. The
  constructor reads its arguments as C \<open>int\<close>s, and a \<open>timedelta\<close> its days, so a Python
  int that does not fit raises \<open>OverflowError\<close> first (the sizes are those of a platform
  whose C \<open>long\<close> has 64 bits and whose C \<open>int\<close> has 32).
\<close>

record date =
  date_year :: int
  date_month :: int
  date_day :: int

definition MINYEAR :: int where "MINYEAR = 1"
definition MAXYEAR :: int where "MAXYEAR = 9999"

definition is_leap :: "int \<Rightarrow> bool" where
  "is_leap y = (y mod 4 = 0 \<and> (y mod 100 \<noteq> 0 \<or> y mod 400 = 0))"

definition days_in_month :: "int \<Rightarrow> int \<Rightarrow> int" where
  "days_in_month y m =
     (if m = 2 then (if is_leap y then 29 else 28)
      else if m = 4 \<or> m = 6 \<or> m = 9 \<or> m = 11 then 30
      else 31)"

definition days_before_year :: "int \<Rightarrow> int" where
  "days_before_year y = (let p = y - 1 in p * 365 + p div 4 - p div 100 + p div 400)"

definition days_before_month :: "int \<Rightarrow> int \<Rightarrow> int" where
  "days_before_month y m =
     (if m = 1 then 0 else if m = 2 then 31 else
      (if is_leap y then 1 else 0) +
      (if m = 3 then 59 else if m = 4 then 90 else if m = 5 then 120
       else if m = 6 then 151 else if m = 7 then 181 else if m = 8 then 212
       else if m = 9 then 243 else if m = 10 then 273 else if m = 11 then 304
       else 334))"

text \<open>An argument read as a C \<open>int\<close>.\<close>

definition c_int :: "int \<Rightarrow> pyexc + int" where
  "c_int v =
     (if v < - (2 ^ 63) \<or> 2 ^ 63 \<le> v
      then Inl (OverflowError ''Python int too large to convert to C long'')
      else if 2 ^ 31 \<le> v then Inl (OverflowError ''signed integer is greater than maximum'')
      else if v < - (2 ^ 31) then Inl (OverflowError ''signed integer is less than minimum'')
      else Inr v)"

text \<open>
  \<^verbatim>\<open>date(year, month, day)\<close>: the constructor reads its three arguments, then makes
  its range checks.
\<close>

definition date_new :: "int \<Rightarrow> int \<Rightarrow> int \<Rightarrow> pyexc + date" where
  "date_new year month day =
     (case c_int year of Inl e \<Rightarrow> Inl e | Inr y \<Rightarrow>
      case c_int month of Inl e \<Rightarrow> Inl e | Inr m \<Rightarrow>
      case c_int day of Inl e \<Rightarrow> Inl e | Inr d \<Rightarrow>
      if \<not> (MINYEAR \<le> y \<and> y \<le> MAXYEAR)
        then Inl (ValueError (''year '' @ str_int y @ '' is out of range''))
      else if \<not> (1 \<le> m \<and> m \<le> 12) then Inl (ValueError ''month must be in 1..12'')
      else if \<not> (1 \<le> d \<and> d \<le> days_in_month y m)
        then Inl (ValueError ''day is out of range for month'')
      else Inr \<lparr>date_year = y, date_month = m, date_day = d\<rparr>)"

text \<open>\<^verbatim>\<open>date.toordinal()\<close>: 1 for 0001-01-01; \<^verbatim>\<open>date.weekday()\<close>: 0 for Monday to 6 for Sunday.\<close>

definition toordinal :: "date \<Rightarrow> int" where
  "toordinal dt =
     days_before_year (date_year dt) + days_before_month (date_year dt) (date_month dt) + date_day dt"

definition weekday :: "date \<Rightarrow> int" where
  "weekday dt = (toordinal dt + 6) mod 7"

text \<open>The day after and the day before a date.\<close>

definition next_day :: "date \<Rightarrow> date" where
  "next_day dt =
     (if date_day dt < days_in_month (date_year dt) (date_month dt) then dt\<lparr>date_day := date_day dt + 1\<rparr>
      else if date_month dt < 12 then dt\<lparr>date_month := date_month dt + 1, date_day := 1\<rparr>
      else \<lparr>date_year = date_year dt + 1, date_month = 1, date_day = 1\<rparr>)"

definition prev_day :: "date \<Rightarrow> date" where
  "prev_day dt =
     (if 1 < date_day dt then dt\<lparr>date_day := date_day dt - 1\<rparr>
      else if 1 < date_month dt
        then dt\<lparr>date_month := date_month dt - 1,
                date_day := days_in_month (date_year dt) (date_month dt - 1)\<rparr>
      else \<lparr>date_year = date_year dt - 1, date_month = 12, date_day = 31\<rparr>)"

text \<open>\<^verbatim>\<open>timedelta(days=k)\<close>, as its number of days.\<close>

definition timedelta :: "int \<Rightarrow> pyexc + int" where
  "timedelta k =
     (if k < - (2 ^ 31) \<or> 2 ^ 31 \<le> k
      then Inl (OverflowError ''Python int too large to convert to C int'')
      else if 999999999 < \<bar>k\<bar>
      then Inl (OverflowError (''days='' @ str_int k @ ''; must have magnitude <= 999999999''))
      else Inr k)"

text \<open>\<^verbatim>\<open>date + timedelta\<close>: the date \<open>k\<close> days later (earlier when \<open>k\<close> is negative).\<close>

definition date_add :: "date \<Rightarrow> int \<Rightarrow> pyexc + date" where
  "date_add dt k =
     (let r = (if 0 \<le> k then (next_day ^^ nat k) dt else (prev_day ^^ nat (- k)) dt)
      in if MINYEAR \<le> date_year r \<and> date_year r \<le> MAXYEAR then Inr r
         else Inl (OverflowError ''date value out of range''))"

section \<open>\<^verbatim>\<open>concurrency_example.py\<close>\<close>

subsection \<open>\<^verbatim>\<open>get_nth_weekend_dates\<close>\<close>

text \<open>
  The function returns a pair; \<open>None\<close> in the pair is \<^term>\<open>None\<close>. Every call that can
  raise is a branch: the constructor of the first day, the two \<open>timedelta\<close>s and the
  two additions.
\<close>

definition get_nth_weekend_dates :: "int \<Rightarrow> int \<Rightarrow> int \<Rightarrow> pyexc + (int option \<times> int option)" where
  "get_nth_weekend_dates year month n =
     (case date_new year month 1 of Inl e \<Rightarrow> Inl e | Inr first_day \<Rightarrow>
      let offset_to_friday = (4 - weekday first_day) mod 7 in
      case timedelta (offset_to_friday + 7 * (n - 1)) of Inl e \<Rightarrow> Inl e | Inr td \<Rightarrow>
      case date_add first_day td of Inl e \<Rightarrow> Inl e | Inr nth_friday \<Rightarrow>
      case timedelta 2 of Inl e \<Rightarrow> Inl e | Inr td2 \<Rightarrow>
      case date_add nth_friday td2 of Inl e \<Rightarrow> Inl e | Inr nth_sunday \<Rightarrow>
      if date_month nth_friday \<noteq> month \<or> date_month nth_sunday \<noteq> month then Inr (None, None)
      else Inr (Some (date_day nth_friday), Some (date_day nth_sunday)))"

subsection \<open>Notions used to state the properties of \<^verbatim>\<open>get_nth_weekend_dates\<close>\<close>

text \<open>A date object always holds a month from 1 to 12 and a day of that month.\<close>

definition valid_date :: "date \<Rightarrow> bool" where
  "valid_date dt \<longleftrightarrow> 1 \<le> date_month dt \<and> date_month dt \<le> 12
     \<and> 1 \<le> date_day dt \<and> date_day dt \<le> days_in_month (date_year dt) (date_month dt)"

text \<open>The ordinal of the last date, 9999-12-31.\<close>

definition MAXORDINAL :: int where
  "MAXORDINAL = 3652059"

text \<open>
  The day \<open>f\<close> of the month is the \<open>n\<close>-th Friday of the month \<open>m\<close> of the year \<open>y\<close>: it
  is a day of that month, it is a Friday, and \<open>n\<close> of the days from the first of the
  month to it are Fridays. This follows the words of the claim, not the code.
\<close>

definition is_nth_friday :: "int \<Rightarrow> int \<Rightarrow> int \<Rightarrow> int \<Rightarrow> bool" where
  "is_nth_friday y m n f \<longleftrightarrow>
     1 \<le> f \<and> f \<le> days_in_month y m
     \<and> weekday \<lparr>date_year = y, date_month = m, date_day = f\<rparr> = 4
     \<and> int (length (filter (\<lambda>d. weekday \<lparr>date_year = y, date_month = m, date_day = d\<rparr> = 4) [1..f])) = n"

text \<open>
  The second day after the \<open>n\<close>-th Friday counted from the first of the month, on into
  the following months, lies after 9999-12-31.
\<close>

definition past_last_date :: "int \<Rightarrow> int \<Rightarrow> int \<Rightarrow> bool" where
  "past_last_date y m n \<longleftrightarrow>
     (let first_day = \<lparr>date_year = y, date_month = m, date_day = 1\<rparr>
      in MAXORDINAL < toordinal first_day + ((4 - weekday first_day) mod 7 + 7 * (n - 1)) + 2)"

subsection \<open>The desktop session and the agent, as the worker sees them\<close>

text \<open>
  \<open>Desktop\<close> and \<open>AgentStatus\<close> come from the \<open>spongecake\<close> package, which the
  example only calls. A \<open>Desktop\<close> is the record of its constructor arguments. What the
  package does is given to the worker as an environment: whether \<open>start\<close> returns a
  container or raises, and whether \<open>action\<close> returns a status with its data or raises.
  \<open>stop\<close> returns normally. The calls a worker makes are recorded in a trace.
\<close>

record desktop =
  name :: string
  vnc_port :: int
  api_port :: int
  marionette_port :: int
  socat_port :: int

datatype AgentStatus = COMPLETE | ERROR | NEEDS_INPUT | NEEDS_SAFETY_CHECK | OTHER string

text \<open>\<open>str(status)\<close>: the rendering of an enumeration member; \<open>OTHER\<close> carries its own.\<close>

fun str_status :: "AgentStatus \<Rightarrow> string" where
  "str_status COMPLETE = ''AgentStatus.COMPLETE''"
| "str_status ERROR = ''AgentStatus.ERROR''"
| "str_status NEEDS_INPUT = ''AgentStatus.NEEDS_INPUT''"
| "str_status NEEDS_SAFETY_CHECK = ''AgentStatus.NEEDS_SAFETY_CHECK''"
| "str_status (OTHER raw) = raw"

text \<open>
  The data returned with a status: the name of its class and the two attributes the
  worker reads, \<open>None\<close> when the object has no such attribute.
\<close>

record agent_data =
  class_name :: string
  output_text :: "string option"
  error_message :: "string option"

record worker_env =
  start_outcome :: "pyexc + string"
  action_outcome :: "pyexc + (AgentStatus \<times> agent_data)"

datatype log_level = LogInfo | LogWarning | LogError

datatype event =
    DesktopStart desktop
  | DesktopAction desktop
  | DesktopStop desktop
  | Logging log_level

subsection \<open>\<^verbatim>\<open>check_flight_price\<close>\<close>

definition month_map :: "string \<rightharpoonup> string" where
  "month_map = map_of
     [(''1'', ''January''), (''2'', ''February''), (''3'', ''March''), (''4'', ''April''),
      (''5'', ''May''), (''6'', ''June''), (''7'', ''July''), (''8'', ''August''),
      (''9'', ''September''), (''10'', ''October''), (''11'', ''November''), (''12'', ''December'')]"

text \<open>The \<open>Desktop(...)\<close> of a worker: every port is its default plus \<open>weekend_number - 1\<close>.\<close>

definition flight_desktop :: "int \<Rightarrow> desktop" where
  "flight_desktop weekend_number =
     \<lparr>name = ''spongecake_weekend_flight_'' @ str_int weekend_number,
      vnc_port = 5900 + weekend_number - 1,
      api_port = 8000 + weekend_number - 1,
      marionette_port = 3838 + weekend_number - 1,
      socat_port = 2828 + weekend_number - 1\<rparr>"

text \<open>The four port numbers of a desktop, and the default of each kind.\<close>

definition desktop_ports :: "desktop \<Rightarrow> int list" where
  "desktop_ports d = [vnc_port d, api_port d, marionette_port d, socat_port d]"

definition default_ports :: "int list" where
  "default_ports = [5900, 8000, 3838, 2828]"

text \<open>
  The body of the \<open>try\<close>: the prompt is built (its text is not kept, but the lookup
  \<open>month_map[month]\<close> in it raises \<open>KeyError\<close> for an unknown month), the agent runs, and
  the status decides the string returned. \<open>data.output_text\<close> raises \<open>AttributeError\<close>
  when the data has no such attribute.
\<close>

definition run_agent :: "worker_env \<Rightarrow> desktop \<Rightarrow> string \<Rightarrow> event list \<times> (pyexc + string)" where
  "run_agent env d month =
     (case month_map month of
        None \<Rightarrow> ([], Inl (KeyError month))
      | Some month_name \<Rightarrow>
          (case action_outcome env of
             Inl e \<Rightarrow> ([DesktopAction d], Inl e)
           | Inr (status, data) \<Rightarrow>
               if status = COMPLETE then
                 (case output_text data of
                    Some text \<Rightarrow> ([DesktopAction d, Logging LogInfo], Inr text)
                  | None \<Rightarrow>
                      ([DesktopAction d, Logging LogInfo],
                       Inl (AttributeError
                         ([CHR 0x27] @ class_name data @ [CHR 0x27]
                          @ '' object has no attribute '' @ py_repr ''output_text''))))
               else if status = ERROR then
                 (let error_msg = (case error_message data of Some m \<Rightarrow> m | None \<Rightarrow> ''Unknown error'')
                  in ([DesktopAction d, Logging LogError], Inr (''ERROR: '' @ error_msg)))
               else ([DesktopAction d, Logging LogWarning],
                     Inr (''UNKNOWN: Status '' @ str_status status))))"

text \<open>
  The worker. \<open>start\<close>, \<open>int(month)\<close> and \<open>get_nth_weekend_dates\<close> are called outside the
  \<open>try\<close>: an exception of theirs leaves the function. The early return stops the desktop
  itself; after the \<open>try\<close>, the \<open>except\<close> clause turns an exception into a string and the
  \<open>finally\<close> clause stops the desktop. The result is the trace and what the call
  returns (\<open>None\<close> or a string) or raises.
\<close>

definition check_flight_price ::
  "worker_env \<Rightarrow> string \<Rightarrow> string \<Rightarrow> string \<Rightarrow> int \<Rightarrow> event list \<times> (pyexc + string option)" where
  "check_flight_price env month origin destination weekend_number =
     (let d = flight_desktop weekend_number in
      case start_outcome env of
        Inl e \<Rightarrow> ([DesktopStart d], Inl e)
      | Inr container \<Rightarrow>
          (let started = [DesktopStart d, Logging LogInfo] in
           case py_int month of
             Inl e \<Rightarrow> (started, Inl e)
           | Inr m \<Rightarrow>
               (case get_nth_weekend_dates 2025 m weekend_number of
                  Inl e \<Rightarrow> (started, Inl e)
                | Inr (friday_date, sunday_date) \<Rightarrow>
                    if friday_date = None \<or> sunday_date = None then
                      (started @ [DesktopStop d, Logging LogInfo], Inr None)
                    else
                      (case run_agent env d month of
                         (tr, Inr text) \<Rightarrow>
                           (started @ [Logging LogInfo] @ tr @ [DesktopStop d, Logging LogInfo],
                            Inr (Some text))
                       | (tr, Inl e) \<Rightarrow>
                           (started @ [Logging LogInfo] @ tr @ [Logging LogError]
                              @ [DesktopStop d, Logging LogInfo],
                            Inr (Some (''EXCEPTION: '' @ str_exc e)))))))"

subsection \<open>\<^verbatim>\<open>main\<close>: the pool and the aggregation of the results\<close>

definition weekends :: "int list" where
  "weekends = [1, 2, 3, 4, 5]"

record aggregate =
  results :: "int \<rightharpoonup> string"
  cheapest_weekend :: pyfloat

text \<open>
  The body of the loop over the completed futures, for the future of one weekend:
  \<open>future.result()\<close> returns what the worker returned or raises what it raised.
\<close>

definition process_future :: "int \<times> (pyexc + string option) \<Rightarrow> aggregate \<Rightarrow> aggregate" where
  "process_future fut agg =
     (case fut of
        (weekend_number, Inl e) \<Rightarrow>
          agg\<lparr>results := (results agg)(weekend_number \<mapsto> ''ERROR: '' @ str_exc e)\<rparr>
      | (weekend_number, Inr None) \<Rightarrow> agg
      | (weekend_number, Inr (Some result)) \<Rightarrow>
          (let agg' = agg\<lparr>results := (results agg)(weekend_number \<mapsto> result)\<rparr> in
           case py_float result of
             None \<Rightarrow> agg'
           | Some price \<Rightarrow>
               if py_lt price (cheapest_weekend agg') then agg'\<lparr>cheapest_weekend := price\<rparr>
               else agg'))"

definition aggregate_futures :: "(int \<times> (pyexc + string option)) list \<Rightarrow> aggregate" where
  "aggregate_futures futs = fold process_future futs \<lparr>results = Map.empty, cheapest_weekend = PosInf\<rparr>"

text \<open>\<open>input(...)\<close>: the next line of the standard input, \<open>EOFError\<close> at its end.\<close>

definition py_input :: "string list \<Rightarrow> pyexc + (string \<times> string list)" where
  "py_input stdin = (case stdin of [] \<Rightarrow> Inl EOFError | l # ls \<Rightarrow> Inr (l, ls))"

text \<open>
  \<open>main\<close> reads the origin, the destination and the month, looks the month up (a
  \<open>KeyError\<close> leaves \<open>main\<close>), submits one worker for each weekend to a pool of
  \<open>min(5, len(weekends))\<close> threads, and handles the futures in the order in which they
  complete. That order is the parameter \<open>completed\<close>, a list of weekend numbers; the
  workers share nothing, so the future of a weekend holds what its worker returns or
  raises in its own environment \<open>env weekend\<close>.
\<close>

definition max_workers :: nat where
  "max_workers = min 5 (length weekends)"

definition future_of :: "(int \<Rightarrow> worker_env) \<Rightarrow> string \<Rightarrow> string \<Rightarrow> string \<Rightarrow> int \<Rightarrow> int \<times> (pyexc + string option)" where
  "future_of env month origin destination weekend =
     (weekend, snd (check_flight_price (env weekend) month origin destination weekend))"

definition main :: "(int \<Rightarrow> worker_env) \<Rightarrow> int list \<Rightarrow> string list \<Rightarrow> pyexc + aggregate" where
  "main env completed stdin =
     (case py_input stdin of Inl e \<Rightarrow> Inl e | Inr (l1, stdin1) \<Rightarrow>
      case py_input stdin1 of Inl e \<Rightarrow> Inl e | Inr (l2, stdin2) \<Rightarrow>
      case py_input stdin2 of Inl e \<Rightarrow> Inl e | Inr (l3, stdin3) \<Rightarrow>
      let origin = py_strip l1; destination = py_strip l2; month = py_strip l3 in
      case month_map month of
        None \<Rightarrow> Inl (KeyError month)
      | Some month_name \<Rightarrow>
          Inr (aggregate_futures (map (future_of env month origin destination) completed)))"

subsection \<open>Notions used to state the properties of the worker and of \<^verbatim>\<open>main\<close>\<close>

text \<open>What the loop of \<open>main\<close> stores in \<open>results\<close> for a future: nothing for \<open>None\<close>.\<close>

definition stored_entry :: "pyexc + string option \<Rightarrow> string option" where
  "stored_entry r = (case r of Inl e \<Rightarrow> Some (''ERROR: '' @ str_exc e) | Inr None \<Rightarrow> None | Inr (Some s) \<Rightarrow> Some s)"

text \<open>The price that the loop reads from a future, if its result parses as a float.\<close>

definition price_of :: "int \<times> (pyexc + string option) \<Rightarrow> pyfloat option" where
  "price_of fut = (case fut of (w, Inr (Some s)) \<Rightarrow> py_float s | _ \<Rightarrow> None)"

text \<open>The events around the start and around the stop of the desktop of a worker.\<close>

definition started_events :: "int \<Rightarrow> event list" where
  "started_events w = [DesktopStart (flight_desktop w), Logging LogInfo]"

definition stopped_events :: "int \<Rightarrow> event list" where
  "stopped_events w = [DesktopStop (flight_desktop w), Logging LogInfo]"

subsection \<open>Example inputs\<close>

text \<open>An environment in which the desktop starts and the agent completes with a given text.\<close>

definition completing_env :: "string \<Rightarrow> worker_env" where
  "completing_env text =
     \<lparr>start_outcome = Inr ''container'',
      action_outcome = Inr (COMPLETE, \<lparr>class_name = ''AgentResult'', output_text = Some text, error_message = None\<rparr>)\<rparr>"

text \<open>Every worker completes with the text \<open>100\<close>.\<close>

definition example_env :: "int \<Rightarrow> worker_env" where
  "example_env w = completing_env ''100''"

text \<open>The agent of the second weekend raises during its run; the others complete.\<close>

definition faulty_env :: "int \<Rightarrow> worker_env" where
  "faulty_env w =
     (if w = 2 then \<lparr>start_outcome = Inr ''container'', action_outcome = Inl (RuntimeFault ''boom'')\<rparr>
      else completing_env ''100'')"

text \<open>The agent ends with a status that is neither \<open>COMPLETE\<close> nor \<open>ERROR\<close>.\<close>

definition unknown_env :: worker_env where
  "unknown_env =
     \<lparr>start_outcome = Inr ''container'',
      action_outcome = Inr (NEEDS_INPUT, \<lparr>class_name = ''AgentResult'', output_text = None, error_message = None\<rparr>)\<rparr>"

text \<open>The outcomes \<open>{1: "231", 2: "ERROR: timeout", 3: "189"}\<close> as completed futures.\<close>

definition example_outcomes :: "(int \<times> (pyexc + string option)) list" where
  "example_outcomes = [(1, Inr (Some ''231'')), (2, Inr (Some ''ERROR: timeout'')), (3, Inr (Some ''189''))]"

section \<open>\<^verbatim>\<open>linkedin_example.py\<close>\<close>

text \<open>
  The handlers read the standard input, print, and write the global one-element list
  \<open>result\<close>. These are the fields of the state that the handlers and \<open>main\<close> pass on.
  Of a printed text the model keeps the words: pictographs and line breaks are left
  out, so a text of pictographs only is printed as the empty string.
\<close>

record console =
  input_lines :: "string list"
  printed :: "string list"
  result0 :: "agent_data option"

definition py_print :: "string \<Rightarrow> console \<Rightarrow> console" where
  "py_print s w = w\<lparr>printed := printed w @ [s]\<rparr>"

text \<open>\<open>input(prompt)\<close> writes the prompt and reads a line; \<open>EOFError\<close> at the end of the input.\<close>

definition prompt_input :: "string \<Rightarrow> console \<Rightarrow> pyexc + (string \<times> console)" where
  "prompt_input prompt w =
     (case py_input (input_lines w) of
        Inl e \<Rightarrow> Inl e
      | Inr (l, ls) \<Rightarrow> Inr (l, (py_print prompt w)\<lparr>input_lines := ls\<rparr>))"

text \<open>\<open>' '.join(parts)\<close>\<close>

fun join_space :: "string list \<Rightarrow> string" where
  "join_space [] = []"
| "join_space [s] = s"
| "join_space (s # t # ts) = s @ [CHR 0x20] @ join_space (t # ts)"

text \<open>
  A message of the agent: its \<open>content\<close>, if it has that attribute, is a list of parts,
  each with or without a \<open>text\<close>. A safety check is its \<open>message\<close>, if it has one.
\<close>

type_synonym message = "string option list option"
type_synonym safety_check = "string option"

definition complete_handler :: "agent_data \<Rightarrow> console \<Rightarrow> console" where
  "complete_handler data w = (py_print ''Task completed successfully!'' w)\<lparr>result0 := Some data\<rparr>"

definition print_message :: "message \<Rightarrow> console \<Rightarrow> console" where
  "print_message msg w =
     (case msg of
        None \<Rightarrow> w
      | Some content \<Rightarrow>
          (let text_parts = map the (filter (\<lambda>part. part \<noteq> None) content)
           in py_print (''Agent asks: '' @ join_space text_parts) w))"

definition needs_input_handler :: "message list \<Rightarrow> console \<Rightarrow> pyexc + (string option \<times> console)" where
  "needs_input_handler messages w =
     (case prompt_input ''Enter your response (or 'exit'/'quit'): '' (fold print_message messages w) of
        Inl e \<Rightarrow> Inl e
      | Inr (line, w1) \<Rightarrow>
          (let user_says = py_strip line in
           if py_lower user_says = ''exit'' \<or> py_lower user_says = ''quit'' then
             Inr (None, (py_print ''Exiting as per user request.'' w1)\<lparr>result0 := None\<rparr>)
           else Inr (Some user_says, w1)))"

definition print_check :: "safety_check \<Rightarrow> console \<Rightarrow> console" where
  "print_check check w =
     (case check of None \<Rightarrow> w | Some m \<Rightarrow> py_print (''Pending Safety Check: '' @ m) w)"

definition needs_safety_check_handler ::
  "safety_check list \<Rightarrow> 'o \<Rightarrow> console \<Rightarrow> pyexc + (bool \<times> console)" where
  "needs_safety_check_handler safety_checks pending_call w =
     (let w1 = fold print_check safety_checks (py_print [] w);
          w2 = py_print ''Please acknowledge the safety check(s) in order to proceed with the computer call.'' w1
      in case prompt_input ''Type 'ack' to confirm, or 'exit'/'quit': '' w2 of
           Inl e \<Rightarrow> Inl e
         | Inr (line, w3) \<Rightarrow>
             (let ack = py_lower (py_strip line) in
              if ack = ''exit'' \<or> ack = ''quit'' then
                Inr (False, (py_print ''Exiting as per user request.'' w3)\<lparr>result0 := None\<rparr>)
              else if ack = ''ack'' then
                Inr (True, py_print ''Acknowledged. Proceeding with the computer call...'' w3)
              else Inr (False, w3)))"

definition error_handler :: "string \<Rightarrow> console \<Rightarrow> console" where
  "error_handler msg w = (py_print (''ERROR: '' @ msg) w)\<lparr>result0 := None\<rparr>"

text \<open>
  The handlers that a caller gives to \<open>desktop.action\<close>, and the four handlers of the
  example.
\<close>

record 'o handlers =
  on_complete :: "agent_data \<Rightarrow> console \<Rightarrow> console"
  on_input :: "message list \<Rightarrow> console \<Rightarrow> pyexc + (string option \<times> console)"
  on_safety_check :: "safety_check list \<Rightarrow> 'o \<Rightarrow> console \<Rightarrow> pyexc + (bool \<times> console)"
  on_error :: "string \<Rightarrow> console \<Rightarrow> console"

definition linkedin_handlers :: "'o handlers" where
  "linkedin_handlers =
     \<lparr>on_complete = complete_handler,
      on_input = needs_input_handler,
      on_safety_check = needs_safety_check_handler,
      on_error = error_handler\<rparr>"

subsection \<open>\<^verbatim>\<open>main\<close> of \<^verbatim>\<open>linkedin_example.py\<close>\<close>

text \<open>
  What the environment does: whether \<open>start\<close> returns a container or raises, and whether
  the command that opens the viewer raises. \<open>desktop.action\<close> belongs to the package; it
  is the parameter \<open>action\<close>, called without handlers in the automatic mode
  (\<open>ignore_safety_and_input=True\<close>) and with the four handlers otherwise. It returns a
  status with its data or raises, and it changes the console through the handlers.
\<close>

record linkedin_env =
  desktop_start :: "pyexc + string"
  open_viewer :: "pyexc + unit"

definition auto_mode :: bool where
  "auto_mode = False"

text \<open>\<open>Desktop(name="newdesktop")\<close>, with the default ports.\<close>

definition new_desktop :: desktop where
  "new_desktop = \<lparr>name = ''newdesktop'', vnc_port = 5900, api_port = 8000,
     marionette_port = 3838, socat_port = 2828\<rparr>"

text \<open>The lines after the call of \<open>action\<close>: the final result is shown.\<close>

definition show_final_result :: "console \<Rightarrow> console" where
  "show_final_result w =
     (case result0 w of
        None \<Rightarrow> py_print ''Task was interrupted or encountered an error'' w
      | Some final_result \<Rightarrow>
          (case output_text final_result of
             Some text \<Rightarrow> py_print (''Result: '' @ text) w
           | None \<Rightarrow> py_print ''Done.'' w))"

text \<open>
  The body of the second \<open>try\<close> of \<open>main\<close>. The result is the console and the exception
  that left the body, if one did.
\<close>

definition perform_action ::
  "('o handlers option \<Rightarrow> console \<Rightarrow> (pyexc + (AgentStatus \<times> agent_data)) \<times> console)
     \<Rightarrow> console \<Rightarrow> pyexc option \<times> console" where
  "perform_action action w =
     (let w1 = py_print ''Performing desktop action... see output_image.png to see screenshots OR connect to the VNC server to view actions in real time'' w
      in if auto_mode then
           (case action None w1 of
              (Inl e, w2) \<Rightarrow> (Some e, w2)
            | (Inr (status, data), w2) \<Rightarrow>
                (let w3 = (if status = ERROR then py_print (''error in auto mode: '' @ class_name data) w2 else w2)
                 in (None, show_final_result (w3\<lparr>result0 := Some data\<rparr>))))
         else
           (case action (Some linkedin_handlers) w1 of
              (Inl e, w2) \<Rightarrow> (Some e, w2)
            | (Inr (status, data), w2) \<Rightarrow> (None, show_final_result w2)))"

text \<open>
  \<open>main\<close>: an exception of \<open>start\<close> leaves it; one of the viewer or of the action is
  caught and printed. The clean-up at the end of \<open>main\<close> is commented out in the source
  (the container is left running on purpose), so \<open>main\<close> calls \<open>start\<close> and \<open>action\<close>
  and never \<open>stop\<close>. The result is the trace of the calls on the desktop and the
  console, or the exception raised.
\<close>

definition linkedin_main ::
  "('o handlers option \<Rightarrow> console \<Rightarrow> (pyexc + (AgentStatus \<times> agent_data)) \<times> console)
     \<Rightarrow> linkedin_env \<Rightarrow> console \<Rightarrow> event list \<times> (pyexc + console)" where
  "linkedin_main action env w =
     (case desktop_start env of
        Inl e \<Rightarrow> ([DesktopStart new_desktop], Inl e)
      | Inr container \<Rightarrow>
          (let w1 = py_print ''...'' (py_print (''spongecake container started: '' @ container) w);
               w2 = py_print (''Attempting to open VNC connection to view Mac desktop, password is ''
                      @ [CHR 0x22] @ ''secret'' @ [CHR 0x22] @ ''...'') w1;
               w3 = (case open_viewer env of
                       Inl e \<Rightarrow> py_print (''Failed to open VNC connection: '' @ str_exc e) w2
                     | Inr u \<Rightarrow> w2);
               w4 = (case perform_action action w3 of
                       (None, w') \<Rightarrow> w'
                     | (Some e, w') \<Rightarrow>
                         py_print ''Exiting gracefully...'' (py_print (''An error occurred: '' @ str_exc e) w'))
           in ([DesktopStart new_desktop, DesktopAction new_desktop], Inr (py_print [] w4))))"

section \<open>The Action State Machine\<close>

text \<open>
  Modelled from the spec: the Action State Machine that \<open>desktop.action\<close> runs, and the
  engine it drives, are code of the \<open>spongecake\<close> package, which is not among the
  sources; the examples only call it. The model follows sections 4.2 and 6 of the spec.

  The engine is a step function on a state of its own: it is given what to do next
  and returns one of the recognized statuses with its payload.
\<close>

datatype 'o resume = Begin string | Continue | Respond string | Execute 'o

datatype 'o engine_status =
    RUNNING
  | PENDING_INPUT "message list"
  | PENDING_SAFETY_CHECK "safety_check list" 'o
  | COMPLETED agent_data
  | FAILED string
  | UNRECOGNIZED string

text \<open>
  Modelled from the spec: the states of a run of the machine (section 4.2), whose code
  is missing. \<open>Running\<close> is initial; there are the two suspended states and the terminal
  states \<open>Complete\<close>, \<open>Error\<close>, \<open>Unknown\<close> and \<open>Aborted\<close> (a handler declined to continue).
\<close>

datatype 'o run_state =
    Running
  | Needs_Input "message list"
  | Needs_Safety_Check "safety_check list" 'o
  | Complete agent_data
  | Error string
  | Unknown string
  | Aborted

fun terminal :: "'o run_state \<Rightarrow> bool" where
  "terminal (Complete out) = True"
| "terminal (Error msg) = True"
| "terminal (Unknown raw) = True"
| "terminal Aborted = True"
| "terminal st = False"

text \<open>
  Modelled from the spec: the \<open>ActionRun\<close> of section 3, whose code is missing. A run
  has its state, what the engine is asked next, the state of the engine, the
  operations executed so far after a safety check, and the console of the handlers.
\<close>

record ('e, 'o) action_run =
  state :: "'o run_state"
  next_request :: "'o resume"
  engine_state :: 'e
  executed :: "'o list"
  handler_console :: console

definition start_run :: "string \<Rightarrow> 'e \<Rightarrow> console \<Rightarrow> ('e, 'o) action_run" where
  "start_run prompt e w =
     \<lparr>state = Running, next_request = Begin prompt, engine_state = e, executed = [],
      handler_console = w\<rparr>"

text \<open>
  Modelled from the spec: one transition of the machine (the contract per transition
  of section 4.2), whose code is missing. In \<open>Running\<close> the engine is asked and its status becomes the state;
  \<open>COMPLETE\<close> and \<open>ERROR\<close> call their handlers. In \<open>Needs_Input\<close> the input handler gives a
  response, with which the run resumes, or declines, which aborts the run. In
  \<open>Needs_Safety_Check\<close> the safety-check handler returns true, and the run resumes and
  executes the pending operation, or false, and the run is aborted without executing
  it. An exception of a handler leaves the run. A terminal state has no transition.
\<close>

definition step ::
  "('e \<Rightarrow> 'o resume \<Rightarrow> 'o engine_status \<times> 'e) \<Rightarrow> 'o handlers \<Rightarrow> ('e, 'o) action_run
     \<Rightarrow> pyexc + ('e, 'o) action_run" where
  "step engine h r =
     (case state r of
        Running \<Rightarrow>
          (case engine (engine_state r) (next_request r) of
             (status, e') \<Rightarrow>
               (let r' = r\<lparr>engine_state := e', next_request := Continue\<rparr> in
                case status of
                  RUNNING \<Rightarrow> Inr r'
                | PENDING_INPUT msgs \<Rightarrow> Inr (r'\<lparr>state := Needs_Input msgs\<rparr>)
                | PENDING_SAFETY_CHECK checks op \<Rightarrow> Inr (r'\<lparr>state := Needs_Safety_Check checks op\<rparr>)
                | COMPLETED out \<Rightarrow>
                    Inr (r'\<lparr>state := Complete out,
                            handler_console := on_complete h out (handler_console r)\<rparr>)
                | FAILED msg \<Rightarrow>
                    Inr (r'\<lparr>state := Error msg,
                            handler_console := on_error h msg (handler_console r)\<rparr>)
                | UNRECOGNIZED raw \<Rightarrow> Inr (r'\<lparr>state := Unknown raw\<rparr>)))
      | Needs_Input msgs \<Rightarrow>
          (case on_input h msgs (handler_console r) of
             Inl e \<Rightarrow> Inl e
           | Inr (None, w') \<Rightarrow> Inr (r\<lparr>state := Aborted, handler_console := w'\<rparr>)
           | Inr (Some response, w') \<Rightarrow>
               Inr (r\<lparr>state := Running, next_request := Respond response, handler_console := w'\<rparr>))
      | Needs_Safety_Check checks op \<Rightarrow>
          (case on_safety_check h checks op (handler_console r) of
             Inl e \<Rightarrow> Inl e
           | Inr (proceed, w') \<Rightarrow>
               if proceed then
                 Inr (r\<lparr>state := Running, next_request := Execute op,
                        executed := executed r @ [op], handler_console := w'\<rparr>)
               else Inr (r\<lparr>state := Aborted, handler_console := w'\<rparr>))
      | Complete out \<Rightarrow> Inr r
      | Error msg \<Rightarrow> Inr r
      | Unknown raw \<Rightarrow> Inr r
      | Aborted \<Rightarrow> Inr r)"

text \<open>
  Modelled from the spec: the run after \<open>k\<close> transitions of the machine, or the
  exception that left it.
\<close>

fun run_steps ::
  "nat \<Rightarrow> ('e \<Rightarrow> 'o resume \<Rightarrow> 'o engine_status \<times> 'e) \<Rightarrow> 'o handlers \<Rightarrow> ('e, 'o) action_run
     \<Rightarrow> pyexc + ('e, 'o) action_run" where
  "run_steps 0 engine h r = Inr r"
| "run_steps (Suc k) engine h r =
     (case step engine h r of Inl e \<Rightarrow> Inl e | Inr r' \<Rightarrow> run_steps k engine h r')"

text \<open>
  Modelled from the spec: driving a run to a terminal state, the entry point of the
  machine, whose code is missing. An engine may ask for input for ever, so the
  drive is given a bound on the number of transitions: \<open>None\<close> when the bound is
  reached before a terminal state.
\<close>

fun drive ::
  "nat \<Rightarrow> ('e \<Rightarrow> 'o resume \<Rightarrow> 'o engine_status \<times> 'e) \<Rightarrow> 'o handlers \<Rightarrow> ('e, 'o) action_run
     \<Rightarrow> (pyexc + ('e, 'o) action_run) option" where
  "drive n engine h r =
     (if terminal (state r) then Some (Inr r)
      else case n of
             0 \<Rightarrow> None
           | Suc k \<Rightarrow> (case step engine h r of Inl e \<Rightarrow> Some (Inl e) | Inr r' \<Rightarrow> drive k engine h r'))"

subsection \<open>Example run\<close>

text \<open>
  An engine that first asks for a safety check of the operation \<open>click\<close> and completes
  once the operation is executed; and a console on which the user types \<open>no\<close>.
\<close>

fun checking_engine :: "nat \<Rightarrow> string resume \<Rightarrow> string engine_status \<times> nat" where
  "checking_engine e (Begin prompt) = (PENDING_SAFETY_CHECK [Some ''about to click''] ''click'', e)"
| "checking_engine e (Execute op) =
     (COMPLETED \<lparr>class_name = ''AgentResult'', output_text = Some ''done'', error_message = None\<rparr>, Suc e)"
| "checking_engine e rq = (RUNNING, e)"

definition declining_console :: console where
  "declining_console = \<lparr>input_lines = [''no''], printed = [], result0 = None\<rparr>"

definition example_linkedin_env :: linkedin_env where
  "example_linkedin_env = \<lparr>desktop_start = Inr ''container'', open_viewer = Inr ()\<rparr>"

text \<open>
  An action of the package that completes at once: it calls the complete handler, if
  it was given handlers, and returns.
\<close>

definition example_data :: agent_data where
  "example_data = \<lparr>class_name = ''AgentResult'', output_text = Some ''done'', error_message = None\<rparr>"

definition example_action ::
  "string handlers option \<Rightarrow> console \<Rightarrow> (pyexc + (AgentStatus \<times> agent_data)) \<times> console" where
  "example_action hs w =
     (case hs of
        None \<Rightarrow> (Inr (COMPLETE, example_data), w)
      | Some h \<Rightarrow> (Inr (COMPLETE, example_data), on_complete h example_data w))"

section \<open>Properties of the calendar and of \<^verbatim>\<open>get_nth_weekend_dates\<close>\<close>

lemma div_succ:
  fixes p k :: int
  assumes "1 < k"
  shows "(p + 1) div k = p div k + (if (p + 1) mod k = 0 then 1 else 0)"
proof -
  have eq: "p = k * (p div k) + p mod k" by simp
  have r: "0 \<le> p mod k" "p mod k < k" using assms by simp_all
  show ?thesis
  proof (cases "p mod k = k - 1")
    case True
    with eq have "p + 1 = k * (p div k) + k" by linarith
    then have e: "p + 1 = (p div k + 1) * k" by (simp add: algebra_simps)
    have "(p + 1) div k = p div k + 1" "(p + 1) mod k = 0"
      unfolding e using assms by simp_all
    then show ?thesis by simp
  next
    case False
    with r have lt: "p mod k + 1 < k" by simp
    have e: "p + 1 = k * (p div k) + (p mod k + 1)" using eq by linarith
    have d: "(p + 1) div k = p div k"
      by (rule int_div_pos_eq [of _ _ _ "p mod k + 1"]) (use r lt e in simp_all)
    have m: "(p + 1) mod k = p mod k + 1"
      by (rule int_mod_pos_eq [of _ _ "p div k"]) (use r lt e in simp_all)
    from d m r show ?thesis by simp
  qed
qed

lemma days_before_year_Suc:
  "days_before_year (y + 1) = days_before_year y + (if is_leap y then 366 else 365)"
proof -
  have a: "y div 4 = (y - 1) div 4 + (if y mod 4 = 0 then 1 else 0)"
    using div_succ [of 4 "y - 1"] by simp
  have b: "y div 100 = (y - 1) div 100 + (if y mod 100 = 0 then 1 else 0)"
    using div_succ [of 100 "y - 1"] by simp
  have c: "y div 400 = (y - 1) div 400 + (if y mod 400 = 0 then 1 else 0)"
    using div_succ [of 400 "y - 1"] by simp
  have d: "y mod 400 = 0 \<Longrightarrow> y mod 100 = 0" 
    using mod_mod_cancel [of 100 400 y] by simp
  have e: "y mod 100 = 0 \<Longrightarrow> y mod 4 = 0"
    using mod_mod_cancel [of 4 100 y] by simp
  have lin: "y * 365 + (A + i) - (B + j) + (C + l) = (y - 1) * 365 + A - B + C + 365 + i - j + l"
    for A B C i j l :: int
    by (simp add: algebra_simps)
  have s: "days_before_year (y + 1) = days_before_year y + 365
      + (if y mod 4 = 0 then 1 else 0) - (if y mod 100 = 0 then 1 else 0) + (if y mod 400 = 0 then 1 else 0)"
    unfolding days_before_year_def Let_def
    by (simp only: add_diff_cancel_right' a b c lin)
  show ?thesis
  proof (cases "y mod 400 = 0")
    case True
    with d e s show ?thesis by (simp add: is_leap_def)
  next
    case False
    with s e show ?thesis by (cases "y mod 100 = 0"; cases "y mod 4 = 0") (simp_all add: is_leap_def)
  qed
qed

lemma days_before_month_Suc:
  assumes "1 \<le> m" "m < 12"
  shows "days_before_month y (m + 1) = days_before_month y m + days_in_month y m"
proof -
  from assms have "m = 1 \<or> m = 2 \<or> m = 3 \<or> m = 4 \<or> m = 5 \<or> m = 6 \<or> m = 7 \<or> m = 8 \<or> m = 9 \<or> m = 10 \<or> m = 11"
    by arith
  then show ?thesis
    by (elim disjE) (simp_all add: days_before_month_def days_in_month_def)
qed

lemma days_before_month_12: "days_before_month y 12 + 31 = (if is_leap y then 366 else 365)"
  by (simp add: days_before_month_def)

lemma next_day_valid_ord:
  assumes "valid_date dt"
  shows "valid_date (next_day dt) \<and> toordinal (next_day dt) = toordinal dt + 1
     \<and> date_year dt \<le> date_year (next_day dt)"
proof -
  let ?y = "date_year dt" and ?m = "date_month dt" and ?d = "date_day dt"
  consider (a) "?d < days_in_month ?y ?m" | (b) "\<not> ?d < days_in_month ?y ?m" "?m < 12"
    | (c) "\<not> ?d < days_in_month ?y ?m" "\<not> ?m < 12" by blast
  then show ?thesis
  proof cases
    case a
    with assms show ?thesis by (simp add: next_day_def valid_date_def toordinal_def)
  next
    case b
    with assms have d: "?d = days_in_month ?y ?m" and m: "1 \<le> ?m"
      by (simp_all add: valid_date_def)
    have "1 \<le> days_in_month ?y (?m + 1)" by (simp add: days_in_month_def)
    with b d m days_before_month_Suc [OF m b(2), of ?y] show ?thesis
      by (simp add: next_day_def valid_date_def toordinal_def)
  next
    case c
    with assms have m: "?m = 12" and d: "?d = 31"
      by (simp_all add: valid_date_def days_in_month_def)
    with c days_before_month_12 [of ?y] days_before_year_Suc [of ?y] show ?thesis
      by (simp add: next_day_def valid_date_def toordinal_def days_in_month_def days_before_month_def)
  qed
qed

lemma funpow_next_day:
  assumes "valid_date dt"
  shows "valid_date ((next_day ^^ k) dt) \<and> toordinal ((next_day ^^ k) dt) = toordinal dt + int k
     \<and> date_year dt \<le> date_year ((next_day ^^ k) dt)"
proof (induction k)
  case 0
  with assms show ?case by simp
next
  case (Suc k)
  with next_day_valid_ord [of "(next_day ^^ k) dt"] show ?case by simp
qed

lemma funpow_next_day_in_month:
  assumes "d + int k \<le> days_in_month y m"
  shows "(next_day ^^ k) \<lparr>date_year = y, date_month = m, date_day = d\<rparr>
     = \<lparr>date_year = y, date_month = m, date_day = d + int k\<rparr>"
  using assms
proof (induction k)
  case 0
  then show ?case by simp
next
  case (Suc k)
  then show ?case by (simp add: next_day_def)
qed

lemma days_before_year_mono365: "y < y' \<Longrightarrow> days_before_year y + 365 \<le> days_before_year y'"
proof (induction y' rule: int_gr_induct)
  case base
  show ?case using days_before_year_Suc [of y] by (simp split: if_splits)
next
  case (step i)
  with days_before_year_Suc [of i] show ?case by (simp split: if_splits)
qed

lemma days_before_year_mono: "y \<le> y' \<Longrightarrow> days_before_year y \<le> days_before_year y'"
  using days_before_year_mono365 [of y y'] by (cases "y = y'") simp_all

lemma days_before_month_bounds:
  assumes "1 \<le> m" "m \<le> 12"
  shows "0 \<le> days_before_month y m \<and> days_before_month y m + days_in_month y m \<le> (if is_leap y then 366 else 365)"
proof -
  from assms have "m = 1 \<or> m = 2 \<or> m = 3 \<or> m = 4 \<or> m = 5 \<or> m = 6 \<or> m = 7 \<or> m = 8 \<or> m = 9 \<or> m = 10 \<or> m = 11 \<or> m = 12"
    by arith
  then show ?thesis
    by (elim disjE) (simp_all add: days_before_month_def days_in_month_def)
qed

lemma toordinal_bounds:
  assumes "valid_date dt"
  shows "days_before_year (date_year dt) < toordinal dt \<and> toordinal dt \<le> days_before_year (date_year dt + 1)"
  using assms days_before_month_bounds [of "date_month dt" "date_year dt"] days_before_year_Suc [of "date_year dt"]
  by (simp add: valid_date_def toordinal_def split: if_splits)

lemma days_before_year_10000: "days_before_year 10000 = MAXORDINAL"
  by (simp add: days_before_year_def MAXORDINAL_def)

lemma year_le_iff_ordinal:
  assumes "valid_date dt"
  shows "date_year dt \<le> MAXYEAR \<longleftrightarrow> toordinal dt \<le> MAXORDINAL"
proof
  assume "date_year dt \<le> MAXYEAR"
  then have "days_before_year (date_year dt + 1) \<le> days_before_year 10000"
    by (intro days_before_year_mono) (simp add: MAXYEAR_def)
  with toordinal_bounds [OF assms] show "toordinal dt \<le> MAXORDINAL"
    by (simp add: days_before_year_10000)
next
  assume a: "toordinal dt \<le> MAXORDINAL"
  show "date_year dt \<le> MAXYEAR"
  proof (rule ccontr)
    assume "\<not> date_year dt \<le> MAXYEAR"
    then have "days_before_year 10000 \<le> days_before_year (date_year dt)"
      by (intro days_before_year_mono) (simp add: MAXYEAR_def)
    with toordinal_bounds [OF assms] a show False by (simp add: days_before_year_10000)
  qed
qed

text \<open>A later year: the same month starts at least 365 days later.\<close>
lemma month_start_later_year:
  assumes "y < y'" "1 \<le> m" "m \<le> 12"
  shows "days_before_year y + days_before_month y m + 365 \<le> days_before_year y' + days_before_month y' m"
proof (cases "y' = y + 1")
  case True
  have "days_before_month y m \<le> days_before_month (y + 1) m + (if is_leap y then 1 else 0)"
    by (simp add: days_before_month_def)
  with True days_before_year_Suc [of y] show ?thesis by (simp split: if_splits)
next
  case False
  with assms have "y + 1 < y'" by simp
  from days_before_year_mono365 [OF this] days_before_year_Suc [of y]
  have "days_before_year y + 730 \<le> days_before_year y'" by (simp split: if_splits)
  moreover have "days_before_month y m \<le> days_before_month y' m + 1"
    by (simp add: days_before_month_def)
  ultimately show ?thesis by simp
qed

lemma funpow_next_day_month:
  assumes y: "1 \<le> m" "m \<le> 12" and k: "k < 365"
  shows "date_month ((next_day ^^ k) \<lparr>date_year = y, date_month = m, date_day = 1\<rparr>) = m
     \<longleftrightarrow> 1 + int k \<le> days_in_month y m"
proof
  assume "1 + int k \<le> days_in_month y m"
  then show "date_month ((next_day ^^ k) \<lparr>date_year = y, date_month = m, date_day = 1\<rparr>) = m"
    by (simp add: funpow_next_day_in_month)
next
  let ?f = "\<lparr>date_year = y, date_month = m, date_day = 1\<rparr>"
  let ?r = "(next_day ^^ k) ?f"
  assume eq: "date_month ?r = m"
  have vf: "valid_date ?f" using y by (simp add: valid_date_def days_in_month_def)
  from funpow_next_day [OF vf, of k]
  have vr: "valid_date ?r" and ord: "toordinal ?r = toordinal ?f + int k" and yr: "y \<le> date_year ?r"
    by simp_all
  show "1 + int k \<le> days_in_month y m"
  proof (cases "date_year ?r = y")
    case True
    with eq vr ord show ?thesis by (simp add: toordinal_def valid_date_def)
  next
    case False
    with yr have "y < date_year ?r" by simp
    from month_start_later_year [OF this y] eq vr ord k show ?thesis
      by (simp add: toordinal_def valid_date_def)
  qed
qed

lemma date_add_forward:
  assumes v: "valid_date dt" and y: "1 \<le> date_year dt" and k: "0 \<le> k"
  shows "date_add dt k =
     (if toordinal dt + k \<le> MAXORDINAL then Inr ((next_day ^^ nat k) dt)
      else Inl (OverflowError ''date value out of range''))"
proof -
  let ?r = "(next_day ^^ nat k) dt"
  from funpow_next_day [OF v, of "nat k"] k
  have vr: "valid_date ?r" and ord: "toordinal ?r = toordinal dt + k" and yr: "date_year dt \<le> date_year ?r"
    by simp_all
  from yr y have "MINYEAR \<le> date_year ?r" by (simp add: MINYEAR_def)
  moreover from year_le_iff_ordinal [OF vr] ord
  have "date_year ?r \<le> MAXYEAR \<longleftrightarrow> toordinal dt + k \<le> MAXORDINAL" by simp
  ultimately show ?thesis using k by (simp add: date_add_def Let_def)
qed

lemma friday_residue:
  fixes a d :: int
  shows "(a + d + 6) mod 7 = 4 \<longleftrightarrow> (d - 1) mod 7 = (4 - (a + 1 + 6) mod 7) mod 7"
proof -
  have "(a + d + 6) mod 7 = 4 \<longleftrightarrow> (a + d + 6) mod 7 = 4 mod 7" by simp
  also have "\<dots> \<longleftrightarrow> 7 dvd (a + d + 6) - 4" by (rule mod_eq_dvd_iff)
  also have "(a + d + 6) - 4 = (d - 1) - (4 - (a + 1 + 6))" by simp
  also have "7 dvd (d - 1) - (4 - (a + 1 + 6)) \<longleftrightarrow> (d - 1) mod 7 = (4 - (a + 1 + 6)) mod 7"
    by (rule mod_eq_dvd_iff [symmetric])
  also have "(4 - (a + 1 + 6)) mod 7 = (4 - (a + 1 + 6) mod 7) mod 7"
    by (simp only: mod_diff_right_eq)
  finally show ?thesis .
qed

lemma weekday_in_month:
  "weekday \<lparr>date_year = y, date_month = m, date_day = d\<rparr> = 4
     \<longleftrightarrow> (d - 1) mod 7 = (4 - weekday \<lparr>date_year = y, date_month = m, date_day = 1\<rparr>) mod 7"
  using friday_residue [of "days_before_year y + days_before_month y m" d]
  by (simp add: weekday_def toordinal_def)

lemma count_residue:
  fixes off :: int
  assumes off: "0 \<le> off" "off < 7"
  shows "length (filter (\<lambda>d. (d - 1) mod 7 = off) [1..1 + off + 7 * int j]) = Suc j"
proof -
  let ?S = "{d. 1 \<le> d \<and> d \<le> 1 + off + 7 * int j \<and> (d - 1) mod 7 = off}"
  let ?g = "\<lambda>i. 1 + off + 7 * int i"
  have "length (filter (\<lambda>d. (d - 1) mod 7 = off) [1..1 + off + 7 * int j])
      = card (set (filter (\<lambda>d. (d - 1) mod 7 = off) [1..1 + off + 7 * int j]))"
    by (rule distinct_card [symmetric]) simp
  also have "set (filter (\<lambda>d. (d - 1) mod 7 = off) [1..1 + off + 7 * int j]) = ?S"
    by auto
  also have "?S = ?g ` {0..<Suc j}"
  proof (rule set_eqI, rule iffI)
    fix d assume "d \<in> ?S"
    then have d: "1 \<le> d" "d \<le> 1 + off + 7 * int j" "(d - 1) mod 7 = off" by simp_all
    define q where "q = (d - 1) div 7"
    have e: "d - 1 = 7 * q + off" unfolding q_def using d(3) mult_div_mod_eq [of 7 "d - 1"] by simp
    with d off have "0 \<le> q" "q \<le> int j" by simp_all
    then have "nat q \<in> {0..<Suc j}" "d = ?g (nat q)" using e by simp_all
    then show "d \<in> ?g ` {0..<Suc j}" by blast
  next
    fix d assume "d \<in> ?g ` {0..<Suc j}"
    then obtain i where i: "i \<le> j" "d = 1 + off + 7 * int i" by auto
    with off show "d \<in> ?S" by simp
  qed
  also have "card (?g ` {0..<Suc j}) = card {0..<Suc j}"
    by (rule card_image) (simp add: inj_on_def)
  finally show ?thesis by simp
qed

lemma is_nth_friday_iff:
  assumes n: "1 \<le> n"
  shows "is_nth_friday y m n f \<longleftrightarrow>
     f = 1 + (4 - weekday \<lparr>date_year = y, date_month = m, date_day = 1\<rparr>) mod 7 + 7 * (n - 1)
     \<and> f \<le> days_in_month y m"
proof -
  define off where "off = (4 - weekday \<lparr>date_year = y, date_month = m, date_day = 1\<rparr>) mod 7"
  have off: "0 \<le> off" "off < 7" by (simp_all add: off_def)
  have cnt: "int (length (filter (\<lambda>d. weekday \<lparr>date_year = y, date_month = m, date_day = d\<rparr> = 4) [1..1 + off + 7 * int j])) = int j + 1"
    for j
    using count_residue [OF off, of j] by (simp add: weekday_in_month off_def)
  show ?thesis
  proof
    assume a: "is_nth_friday y m n f"
    then have f: "1 \<le> f" "f \<le> days_in_month y m" "(f - 1) mod 7 = off"
      by (simp_all add: is_nth_friday_def weekday_in_month off_def)
    define q where "q = (f - 1) div 7"
    have e: "f - 1 = 7 * q + off" unfolding q_def using f(3) mult_div_mod_eq [of 7 "f - 1"] by simp
    with f off have q: "0 \<le> q" by simp
    from e have fe: "f = 1 + off + 7 * int (nat q)" using q by simp
    from a have "int (length (filter (\<lambda>d. weekday \<lparr>date_year = y, date_month = m, date_day = d\<rparr> = 4) [1..f])) = n"
      by (simp add: is_nth_friday_def)
    with cnt [of "nat q"] fe have "n = q + 1" using q by simp
    with e f show "f = 1 + (4 - weekday \<lparr>date_year = y, date_month = m, date_day = 1\<rparr>) mod 7 + 7 * (n - 1)
       \<and> f \<le> days_in_month y m"
      by (simp add: off_def)
  next
    assume a: "f = 1 + (4 - weekday \<lparr>date_year = y, date_month = m, date_day = 1\<rparr>) mod 7 + 7 * (n - 1)
       \<and> f \<le> days_in_month y m"
    then have fe: "f = 1 + off + 7 * int (nat (n - 1))" using n by (simp add: off_def)
    have "(f - 1) mod 7 = off" unfolding fe using off by simp
    moreover have "1 \<le> f" unfolding fe using off by simp
    moreover have "int (length (filter (\<lambda>d. weekday \<lparr>date_year = y, date_month = m, date_day = d\<rparr> = 4) [1..f])) = n"
      unfolding fe using cnt [of "nat (n - 1)"] n by simp
    ultimately show "is_nth_friday y m n f"
      using a by (simp add: is_nth_friday_def weekday_in_month off_def)
  qed
qed

lemma get_nth_weekend_dates_eq:
  assumes y: "1 \<le> y" "y \<le> 9999" and m: "1 \<le> m" "m \<le> 12" and n: "1 \<le> n" "n \<le> 52"
  defines "first \<equiv> \<lparr>date_year = y, date_month = m, date_day = 1\<rparr>"
  defines "f \<equiv> 1 + (4 - weekday first) mod 7 + 7 * (n - 1)"
  shows "get_nth_weekend_dates y m n =
     (if MAXORDINAL < toordinal first + (f - 1) + 2 then Inl (OverflowError ''date value out of range'')
      else if f + 2 \<le> days_in_month y m then Inr (Some f, Some (f + 2))
      else Inr (None, None))"
proof -
  define k where "k = (4 - weekday first) mod 7 + 7 * (n - 1)"
  have k: "0 \<le> k" "k < 365" using n by (simp_all add: k_def)
  have fk: "f = 1 + k" by (simp add: f_def k_def)
  have vf: "valid_date first" using m by (simp add: first_def valid_date_def days_in_month_def)
  have yf: "1 \<le> date_year first" using y by (simp add: first_def)
  have new: "date_new y m 1 = Inr first"
    using y m by (simp add: date_new_def c_int_def MINYEAR_def MAXYEAR_def first_def days_in_month_def)
  have td: "timedelta k = Inr k" "timedelta 2 = Inr 2"
    using k by (simp_all add: timedelta_def)
  let ?r = "(next_day ^^ nat k) first"
  let ?r2 = "(next_day ^^ nat (k + 2)) first"
  from funpow_next_day [OF vf, of "nat k"] k yf
  have vr: "valid_date ?r" and ordr: "toordinal ?r = toordinal first + k" and yr: "1 \<le> date_year ?r"
    by simp_all
  have r2: "(next_day ^^ nat 2) ?r = ?r2"
  proof -
    have e: "nat (k + 2) = nat 2 + nat k" using k by simp
    show ?thesis unfolding e funpow_add by (simp only: comp_apply)
  qed
  have add1: "date_add first k =
     (if toordinal first + k \<le> MAXORDINAL then Inr ?r else Inl (OverflowError ''date value out of range''))"
    using date_add_forward [OF vf yf k(1)] .
  have add2: "date_add ?r 2 =
     (if toordinal first + k + 2 \<le> MAXORDINAL then Inr ?r2 else Inl (OverflowError ''date value out of range''))"
    using date_add_forward [OF vr yr, of 2] ordr r2 by simp
  have mr: "date_month ?r = m \<longleftrightarrow> 1 + k \<le> days_in_month y m"
    using funpow_next_day_month [OF m, of "nat k" y] k by (simp add: first_def)
  have mr2: "date_month ?r2 = m \<longleftrightarrow> 1 + (k + 2) \<le> days_in_month y m" if "k + 2 < 365"
    using funpow_next_day_month [OF m, of "nat (k + 2)" y] k that by (simp add: first_def)
  have dim: "days_in_month y m \<le> 31" by (simp add: days_in_month_def)
  have unfold: "get_nth_weekend_dates y m n =
     (case date_add first k of Inl e \<Rightarrow> Inl e | Inr nth_friday \<Rightarrow>
      case date_add nth_friday 2 of Inl e \<Rightarrow> Inl e | Inr nth_sunday \<Rightarrow>
      if date_month nth_friday \<noteq> m \<or> date_month nth_sunday \<noteq> m then Inr (None, None)
      else Inr (Some (date_day nth_friday), Some (date_day nth_sunday)))"
    by (simp only: get_nth_weekend_dates_def new sum.case Let_def k_def [symmetric] td)
  show ?thesis
  proof (cases "MAXORDINAL < toordinal first + k + 2")
    case True
    then show ?thesis unfolding unfold add1 using add2 by (simp add: fk)
  next
    case False
    then have le: "toordinal first + k \<le> MAXORDINAL" "toordinal first + k + 2 \<le> MAXORDINAL" by simp_all
    show ?thesis
    proof (cases "f + 2 \<le> days_in_month y m")
      case True
      then have "1 + int (nat k) \<le> days_in_month y m" "1 + int (nat (k + 2)) \<le> days_in_month y m"
        using k by (simp_all add: fk)
      then have "?r = \<lparr>date_year = y, date_month = m, date_day = 1 + k\<rparr>"
        "?r2 = \<lparr>date_year = y, date_month = m, date_day = 1 + (k + 2)\<rparr>"
        using k by (simp_all add: first_def funpow_next_day_in_month)
      with True le show ?thesis unfolding unfold add1 using add2 by (simp add: fk)
    next
      case False
      have "date_month ?r \<noteq> m \<or> date_month ?r2 \<noteq> m"
      proof (cases "1 + k \<le> days_in_month y m")
        case True
        with dim have "k + 2 < 365" by simp
        from mr2 [OF this] False show ?thesis by (simp add: fk)
      next
        case False
        with mr show ?thesis by simp
      qed
      with False le show ?thesis unfolding unfold add1 using add2 by (auto simp add: fk)
    qed
  qed
qed


lemma days_in_month_pos: "28 \<le> days_in_month y m"
  by (simp add: days_in_month_def)

lemma days_before_month_mono:
  assumes "1 \<le> m" "m < m'" "m' \<le> 12"
  shows "days_before_month y m + days_in_month y m \<le> days_before_month y m'"
proof -
  have "m' \<le> 12 \<longrightarrow> days_before_month y m + days_in_month y m \<le> days_before_month y m'"
    using assms(2)
  proof (induction m' rule: int_gr_induct)
    case base
    show ?case using days_before_month_Suc [of m y] assms(1) by simp
  next
    case (step i)
    show ?case
    proof
      assume "i + 1 \<le> 12"
      with step assms(1) days_before_month_Suc [of i y] days_in_month_pos [of y i]
      show "days_before_month y m + days_in_month y m \<le> days_before_month y (i + 1)" by simp
    qed
  qed
  with assms(3) show ?thesis by simp
qed

lemma toordinal_inj:
  assumes a: "valid_date a" and b: "valid_date b" and eq: "toordinal a = toordinal b"
  shows "a = b"
proof -
  have y: "date_year a = date_year b"
  proof (rule ccontr)
    assume ne: "date_year a \<noteq> date_year b"
    have lt: "toordinal c < toordinal d"
      if "valid_date c" "valid_date d" "date_year c < date_year d" for c d
    proof -
      from that(3) have "days_before_year (date_year c + 1) \<le> days_before_year (date_year d)"
        by (intro days_before_year_mono) simp
      with toordinal_bounds [OF that(1)] toordinal_bounds [OF that(2)] show ?thesis by simp
    qed
    from ne lt [OF a b] lt [OF b a] eq show False by (cases "date_year a < date_year b") simp_all
  qed
  have m: "date_month a = date_month b"
  proof (rule ccontr)
    assume ne: "date_month a \<noteq> date_month b"
    have lt: "toordinal c < toordinal d"
      if "valid_date c" "valid_date d" "date_year c = date_year d" "date_month c < date_month d" for c d
      using that days_before_month_mono [of "date_month c" "date_month d" "date_year c"]
      by (simp add: valid_date_def toordinal_def)
    from ne lt [OF a b y] lt [OF b a y [symmetric]] eq show False
      by (cases "date_month a < date_month b") simp_all
  qed
  from eq y m have "date_day a = date_day b" by (simp add: toordinal_def)
  with y m show ?thesis by simp
qed

lemma date_add_eqI:
  assumes "valid_date dt" and "valid_date dt'" and "1 \<le> date_year dt" and "date_year dt' \<le> 9999"
    and "0 \<le> k" and "toordinal dt' = toordinal dt + k"
  shows "date_add dt k = Inr dt'"
proof -
  let ?r = "(next_day ^^ nat k) dt"
  from funpow_next_day [OF assms(1), of "nat k"] assms(5)
  have "valid_date ?r" and "toordinal ?r = toordinal dt + k" by simp_all
  with assms(2,6) have r: "?r = dt'" by (intro toordinal_inj) simp_all
  from year_le_iff_ordinal [OF assms(2)] assms(4,6) have "toordinal dt + k \<le> MAXORDINAL"
    by (simp add: MAXYEAR_def)
  with date_add_forward [OF assms(1,3,5)] r show ?thesis by simp
qed

text \<open>
  Claim C10, as amended. For a year from 1 to 9999, a month from 1 to 12 and \<open>n\<close> from
  1 to 52: when the second day after the \<open>n\<close>-th Friday lies after 9999-12-31 the call
  raises \<open>OverflowError\<close>. Otherwise it returns \<open>(None, None)\<close> exactly when the month has
  no \<open>n\<close>-th Friday whose Sunday, two days later, is still a day of the month; and when
  \<open>f\<close> is the \<open>n\<close>-th Friday and \<open>f + 2\<close> is a day of the month, it returns \<open>(f, f + 2)\<close>.
\<close>

theorem get_nth_weekend_dates_nth_friday:
  assumes "1 \<le> year" and "year \<le> 9999" and "1 \<le> month" and "month \<le> 12"
    and "1 \<le> n" and "n \<le> 52"
  shows "(past_last_date year month n \<longrightarrow>
            get_nth_weekend_dates year month n = Inl (OverflowError ''date value out of range''))
     \<and> (\<not> past_last_date year month n \<longrightarrow>
          (get_nth_weekend_dates year month n = Inr (None, None)
             \<longleftrightarrow> \<not> (\<exists>f. is_nth_friday year month n f \<and> f + 2 \<le> days_in_month year month))
        \<and> (\<forall>f. is_nth_friday year month n f \<and> f + 2 \<le> days_in_month year month
             \<longrightarrow> get_nth_weekend_dates year month n = Inr (Some f, Some (f + 2))))"
proof -
  define f0 where "f0 = 1 + (4 - weekday \<lparr>date_year = year, date_month = month, date_day = 1\<rparr>) mod 7 + 7 * (n - 1)"
  have nth: "is_nth_friday year month n f \<longleftrightarrow> f = f0 \<and> f \<le> days_in_month year month" for f
    unfolding f0_def by (rule is_nth_friday_iff [OF assms(5)])
  have ex: "(\<exists>f. is_nth_friday year month n f \<and> f + 2 \<le> days_in_month year month)
      \<longleftrightarrow> f0 + 2 \<le> days_in_month year month"
  proof
    assume "\<exists>f. is_nth_friday year month n f \<and> f + 2 \<le> days_in_month year month"
    then obtain f where "is_nth_friday year month n f" and "f + 2 \<le> days_in_month year month"
      by blast
    with nth [of f] show "f0 + 2 \<le> days_in_month year month" by simp
  next
    assume "f0 + 2 \<le> days_in_month year month"
    with nth [of f0] have "is_nth_friday year month n f0 \<and> f0 + 2 \<le> days_in_month year month"
      by simp
    then show "\<exists>f. is_nth_friday year month n f \<and> f + 2 \<le> days_in_month year month" ..
  qed
  have past: "past_last_date year month n
      \<longleftrightarrow> MAXORDINAL < toordinal \<lparr>date_year = year, date_month = month, date_day = 1\<rparr> + (f0 - 1) + 2"
    unfolding past_last_date_def Let_def f0_def by simp
  have eq: "get_nth_weekend_dates year month n =
     (if MAXORDINAL < toordinal \<lparr>date_year = year, date_month = month, date_day = 1\<rparr> + (f0 - 1) + 2
      then Inl (OverflowError ''date value out of range'')
      else if f0 + 2 \<le> days_in_month year month then Inr (Some f0, Some (f0 + 2))
      else Inr (None, None))"
    unfolding f0_def by (rule get_nth_weekend_dates_eq [OF assms])
  have ovf: "get_nth_weekend_dates year month n = Inl (OverflowError ''date value out of range'')"
    if "past_last_date year month n"
    using that unfolding eq past by simp
  have r: "get_nth_weekend_dates year month n =
        (if f0 + 2 \<le> days_in_month year month then Inr (Some f0, Some (f0 + 2)) else Inr (None, None))"
    if "\<not> past_last_date year month n"
    using that unfolding eq past by simp
  have a: "get_nth_weekend_dates year month n = Inr (None, None)
        \<longleftrightarrow> \<not> (\<exists>f. is_nth_friday year month n f \<and> f + 2 \<le> days_in_month year month)"
    if "\<not> past_last_date year month n"
    unfolding ex r [OF that] by simp
  have b: "get_nth_weekend_dates year month n = Inr (Some f, Some (f + 2))"
    if "\<not> past_last_date year month n"
      and "is_nth_friday year month n f \<and> f + 2 \<le> days_in_month year month" for f
    using that(2) nth [of f] r [OF that(1)] by simp
  show ?thesis
  proof (intro conjI impI allI)
    assume "past_last_date year month n"
    then show "get_nth_weekend_dates year month n = Inl (OverflowError ''date value out of range'')"
      by (rule ovf)
  next
    assume "\<not> past_last_date year month n"
    then show "get_nth_weekend_dates year month n = Inr (None, None)
        \<longleftrightarrow> \<not> (\<exists>f. is_nth_friday year month n f \<and> f + 2 \<le> days_in_month year month)"
      by (rule a)
  next
    fix f
    assume "\<not> past_last_date year month n"
      and "is_nth_friday year month n f \<and> f + 2 \<le> days_in_month year month"
    then show "get_nth_weekend_dates year month n = Inr (Some f, Some (f + 2))"
      by (rule b)
  qed
qed


theorem get_nth_weekend_dates_nth_friday_witness:
  "(1::int) \<le> 2025 \<and> (2025::int) \<le> 9999 \<and> (1::int) \<le> 4 \<and> (4::int) \<le> 12
   \<and> (1::int) \<le> 2 \<and> (2::int) \<le> 52
   \<and> \<not> past_last_date 2025 4 2
   \<and> is_nth_friday 2025 4 2 11 \<and> 11 + 2 \<le> days_in_month 2025 4
   \<and> get_nth_weekend_dates 2025 4 2 = Inr (Some 11, Some 13)"
proof -
  have o: "toordinal \<lparr>date_year = 2025, date_month = 4, date_day = 1\<rparr> = 739342"
    by (simp add: toordinal_def days_before_year_def days_before_month_def is_leap_def)
  have w: "weekday \<lparr>date_year = 2025, date_month = 4, date_day = 1\<rparr> = 1"
    by (simp add: weekday_def o)
  have p: "\<not> past_last_date 2025 4 2"
    by (simp add: past_last_date_def Let_def w o MAXORDINAL_def)
  have d: "(11::int) + 2 \<le> days_in_month 2025 4" by (simp add: days_in_month_def)
  have f: "is_nth_friday 2025 4 2 11"
    using is_nth_friday_iff [of 2 2025 4 11] by (simp add: w days_in_month_def)
  from get_nth_weekend_dates_nth_friday [of 2025 4 2] p
  have "\<forall>f. is_nth_friday 2025 4 2 f \<and> f + 2 \<le> days_in_month 2025 4
      \<longrightarrow> get_nth_weekend_dates 2025 4 2 = Inr (Some f, Some (f + 2))"
    by simp
  with f d have "get_nth_weekend_dates 2025 4 2 = Inr (Some 11, Some (11 + 2))" by blast
  with p f d show ?thesis by simp
qed

text \<open>
  Claim C10 as stated fails in two ways. In December 9999 the fifth Friday is the
  31st and its Sunday lies outside the month, yet the call raises instead of returning
  \<open>(None, None)\<close>. January 2025 has no 53rd Friday, yet the call returns \<open>(2, 4)\<close>, the
  days of a weekend of January 2026.
\<close>

theorem get_nth_weekend_dates_counterexample:
  "is_nth_friday 9999 12 5 31
   \<and> get_nth_weekend_dates 9999 12 5 = Inl (OverflowError ''date value out of range'')
   \<and> \<not> is_nth_friday 2025 1 53 2
   \<and> get_nth_weekend_dates 2025 1 53 = Inr (Some 2, Some 4)"
proof -
  have o: "toordinal \<lparr>date_year = 9999, date_month = 12, date_day = 1\<rparr> = 3652029"
    by (simp add: toordinal_def days_before_year_def days_before_month_def is_leap_def)
  have w: "weekday \<lparr>date_year = 9999, date_month = 12, date_day = 1\<rparr> = 2"
    by (simp add: weekday_def o)
  have a: "is_nth_friday 9999 12 5 31"
    using is_nth_friday_iff [of 5 9999 12 31] by (simp add: w days_in_month_def)
  have b: "get_nth_weekend_dates 9999 12 5 = Inl (OverflowError ''date value out of range'')"
    using get_nth_weekend_dates_eq [of 9999 12 5] by (simp add: w o MAXORDINAL_def)
  have o1: "toordinal \<lparr>date_year = 2025, date_month = 1, date_day = 1\<rparr> = 739252"
    by (simp add: toordinal_def days_before_year_def days_before_month_def)
  have w1: "weekday \<lparr>date_year = 2025, date_month = 1, date_day = 1\<rparr> = 2"
    by (simp add: weekday_def o1)
  have o2: "toordinal \<lparr>date_year = 2026, date_month = 1, date_day = d\<rparr> = 739616 + d" for d
    by (simp add: toordinal_def days_before_year_def days_before_month_def)
  have c: "\<not> is_nth_friday 2025 1 53 2"
    using is_nth_friday_iff [of 53 2025 1 2] by (simp add: w1)
  have fri: "date_add \<lparr>date_year = 2025, date_month = 1, date_day = 1\<rparr> 366
      = Inr \<lparr>date_year = 2026, date_month = 1, date_day = 2\<rparr>"
    by (rule date_add_eqI) (simp_all add: valid_date_def days_in_month_def o1 o2)
  have sun: "date_add \<lparr>date_year = 2026, date_month = 1, date_day = 2\<rparr> 2
      = Inr \<lparr>date_year = 2026, date_month = 1, date_day = 4\<rparr>"
    by (rule date_add_eqI) (simp_all add: valid_date_def days_in_month_def o2)
  have n: "date_new 2025 1 1 = Inr \<lparr>date_year = 2025, date_month = 1, date_day = 1\<rparr>"
    by (simp add: date_new_def c_int_def MINYEAR_def MAXYEAR_def days_in_month_def)
  have t: "timedelta 366 = Inr 366" "timedelta 2 = Inr 2" by (simp_all add: timedelta_def)
  have d: "get_nth_weekend_dates 2025 1 53 = Inr (Some 2, Some 4)"
    unfolding get_nth_weekend_dates_def n sum.case w1 Let_def
    by (simp add: t fri sun)
  from a b c d show ?thesis by blast
qed

section \<open>Properties of the resource allocation\<close>

lemma desktop_ports_flight:
  "desktop_ports (flight_desktop w) = [5900 + w - 1, 8000 + w - 1, 3838 + w - 1, 2828 + w - 1]"
  by (simp add: desktop_ports_def flight_desktop_def)

lemma ports_disjoint_near:
  assumes "w1 \<noteq> w2" and "\<bar>w1 - w2\<bar> < 1010"
  shows "set (desktop_ports (flight_desktop w1)) \<inter> set (desktop_ports (flight_desktop w2)) = {}"
  using assms unfolding desktop_ports_flight by auto

lemma weekends_near:
  assumes "w1 \<in> set weekends" and "w2 \<in> set weekends"
  shows "\<bar>w1 - w2\<bar> < 1010"
  using assms by (auto simp: weekends_def)

text \<open>
  Claim C9. For the weekend number \<open>n\<close> (the tasks are numbered from 1), every port
  of the worker's desktop is the default port of its kind plus the same amount
  \<open>n - 1\<close>, the index of the task counted from 0: 5900, 8000, 3838 and 2828, each plus
  \<open>n - 1\<close>.
\<close>

theorem allocator_base_plus_index:
  "desktop_ports (flight_desktop n) = map (\<lambda>b. b + (n - 1)) default_ports
   \<and> vnc_port (flight_desktop n) = 5900 + (n - 1)
   \<and> api_port (flight_desktop n) = 8000 + (n - 1)
   \<and> marionette_port (flight_desktop n) = 3838 + (n - 1)
   \<and> socat_port (flight_desktop n) = 2828 + (n - 1)"
  by (simp add: desktop_ports_def default_ports_def flight_desktop_def)

text \<open>
  Claim C3. Two distinct tasks get disjoint ports: no port (vnc, api, marionette or
  socat) of one equals a port of the other. This holds for the weekends that \<open>main\<close>
  schedules, and for any two task numbers less than 1010 apart (the least distance
  between two default ports).
\<close>

theorem ports_pairwise_disjoint:
  assumes "w1 \<noteq> w2"
    and "(w1 \<in> set weekends \<and> w2 \<in> set weekends) \<or> \<bar>w1 - w2\<bar> < 1010"
  shows "set (desktop_ports (flight_desktop w1)) \<inter> set (desktop_ports (flight_desktop w2)) = {}"
  using assms ports_disjoint_near weekends_near by blast

theorem ports_pairwise_disjoint_witness:
  "(1::int) \<noteq> 5 \<and> ((1::int) \<in> set weekends \<and> 5 \<in> set weekends)
   \<and> set (desktop_ports (flight_desktop 1)) \<inter> set (desktop_ports (flight_desktop 5)) = {}"
proof -
  have ne: "(1::int) \<noteq> 5" by simp
  have mem: "(1::int) \<in> set weekends \<and> 5 \<in> set weekends" by (simp add: weekends_def)
  from ports_pairwise_disjoint [OF ne disjI1 [OF mem]] ne mem show ?thesis by blast
qed

section \<open>Properties of the worker and of the aggregation\<close>


lemma results_process_future:
  "results (process_future (w, r) agg) =
     (case stored_entry r of None \<Rightarrow> results agg | Some s \<Rightarrow> (results agg)(w \<mapsto> s))"
  by (simp add: process_future_def stored_entry_def Let_def split: sum.splits option.splits)

lemma results_fold_notin:
  "w \<notin> fst ` set futs \<Longrightarrow> results (fold process_future futs agg) w = results agg w"
proof (induction futs arbitrary: agg)
  case Nil
  then show ?case by simp
next
  case (Cons f futs)
  obtain v r where f: "f = (v, r)" by (cases f)
  from Cons.prems f have "v \<noteq> w" "w \<notin> fst ` set futs" by auto
  with Cons.IH [of "process_future f agg"] f show ?case
    by (simp add: results_process_future split: option.splits)
qed

lemma results_fold:
  assumes "distinct (map fst futs)" and "(w, r) \<in> set futs"
  shows "results (fold process_future futs agg) w =
     (case stored_entry r of None \<Rightarrow> results agg w | Some s \<Rightarrow> Some s)"
  using assms
proof (induction futs arbitrary: agg)
  case Nil
  then show ?case by simp
next
  case (Cons f futs)
  obtain v r' where f: "f = (v, r')" by (cases f)
  show ?case
  proof (cases "(w, r) = f")
    case True
    with f have eq: "v = w" "r' = r" by simp_all
    from Cons.prems(1) f eq have "w \<notin> fst ` set futs" by auto
    from results_fold_notin [OF this, of "process_future f agg"] show ?thesis
      unfolding f eq by (simp add: results_process_future split: option.splits)
  next
    case False
    with Cons.prems have in': "(w, r) \<in> set futs" and d: "distinct (map fst futs)" by auto
    from in' Cons.prems(1) f have "v \<noteq> w" by force
    with Cons.IH [OF d in', of "process_future f agg"] f show ?thesis
      by (simp add: results_process_future split: option.splits)
  qed
qed


lemma cheapest_process_future:
  "cheapest_weekend (process_future fut agg) =
     (case price_of fut of None \<Rightarrow> cheapest_weekend agg
      | Some p \<Rightarrow> if py_lt p (cheapest_weekend agg) then p else cheapest_weekend agg)"
  by (cases fut) (simp add: process_future_def price_of_def Let_def split: sum.splits option.splits)

lemma py_lt_not_NaN: "py_lt p c \<Longrightarrow> p \<noteq> NaN \<and> c \<noteq> NaN"
  by (cases p; cases c) simp_all

lemma py_lt_irrefl: "\<not> py_lt a a"
  by (cases a) simp_all

lemma py_lt_asym: "py_lt a b \<Longrightarrow> \<not> py_lt b a"
  by (cases a; cases b) simp_all

lemma py_ge_trans: "b \<noteq> NaN \<Longrightarrow> \<not> py_lt a b \<Longrightarrow> \<not> py_lt b c \<Longrightarrow> \<not> py_lt a c"
  by (cases a; cases b; cases c) simp_all

lemma cheapest_fold:
  assumes "cheapest_weekend agg \<noteq> NaN"
  shows "cheapest_weekend (fold process_future futs agg) \<noteq> NaN
     \<and> \<not> py_lt (cheapest_weekend agg) (cheapest_weekend (fold process_future futs agg))
     \<and> (\<forall>fut\<in>set futs. \<forall>p. price_of fut = Some p \<longrightarrow> \<not> py_lt p (cheapest_weekend (fold process_future futs agg)))
     \<and> (cheapest_weekend (fold process_future futs agg) = cheapest_weekend agg
          \<or> (\<exists>fut\<in>set futs. price_of fut = Some (cheapest_weekend (fold process_future futs agg))))"
  using assms
proof (induction futs arbitrary: agg)
  case Nil
  then show ?case by (simp add: py_lt_irrefl)
next
  case (Cons f futs)
  let ?c = "cheapest_weekend agg" and ?c1 = "cheapest_weekend (process_future f agg)"
  let ?r = "cheapest_weekend (fold process_future futs (process_future f agg))"
  have A: "?c1 \<noteq> NaN" using Cons.prems py_lt_not_NaN
    by (auto simp: cheapest_process_future split: option.splits)
  have B: "\<not> py_lt ?c ?c1"
    by (auto simp: cheapest_process_future py_lt_irrefl py_lt_asym split: option.splits)
  have C: "\<not> py_lt p ?c1" if "price_of f = Some p" for p
    using that by (simp add: cheapest_process_future py_lt_irrefl)
  have D: "?c1 = ?c \<or> price_of f = Some ?c1"
    by (auto simp: cheapest_process_future split: option.splits)
  from Cons.IH [OF A]
  have r1: "?r \<noteq> NaN" and r2: "\<not> py_lt ?c1 ?r"
    and r3: "\<forall>fut\<in>set futs. \<forall>p. price_of fut = Some p \<longrightarrow> \<not> py_lt p ?r"
    and r4: "?r = ?c1 \<or> (\<exists>fut\<in>set futs. price_of fut = Some ?r)"
    by blast+
  have g2: "\<not> py_lt ?c ?r" using py_ge_trans [OF A B r2] .
  have g3: "\<forall>fut\<in>set (f # futs). \<forall>p. price_of fut = Some p \<longrightarrow> \<not> py_lt p ?r"
    using r3 py_ge_trans [OF A C r2] by auto
  have g4: "?r = ?c \<or> (\<exists>fut\<in>set (f # futs). price_of fut = Some ?r)"
    using r4 D by auto
  from r1 g2 g3 g4 show ?case by simp
qed

lemma strip_with_first:
  assumes "\<not> P c"
  shows "strip_with P (c # cs) = c # rev (dropWhile P (rev cs))"
  using assms by (simp add: strip_with_def dropWhile_append3)

lemma py_float_E: "py_float (CHR ''E'' # cs) = None"
proof -
  have s: "strip_with is_number_space (CHR ''E'' # cs)
      = CHR ''E'' # rev (dropWhile is_number_space (rev cs))"
    by (rule strip_with_first) (simp add: is_number_space_def)
  show ?thesis
    unfolding py_float_def s
    by (simp add: take_sign_def py_lower_def py_lower_char_def floatnumber_def number_def
        digitpart_def is_digit_def)
qed

lemma py_float_U: "py_float (CHR ''U'' # cs) = None"
proof -
  have s: "strip_with is_number_space (CHR ''U'' # cs)
      = CHR ''U'' # rev (dropWhile is_number_space (rev cs))"
    by (rule strip_with_first) (simp add: is_number_space_def)
  show ?thesis
    unfolding py_float_def s
    by (simp add: take_sign_def py_lower_def py_lower_char_def floatnumber_def number_def
        digitpart_def is_digit_def)
qed

lemma py_float_tagged:
  "py_float (''ERROR: '' @ x) = None"
  "py_float (''EXCEPTION: '' @ x) = None"
  "py_float (''UNKNOWN: Status '' @ x) = None"
  by (simp_all add: py_float_E py_float_U)

lemma py_float_231: "py_float ''231'' = Some (Finite 231)"
  by (simp add: py_float_def py_strip_def strip_with_def py_isspace_def is_number_space_def take_sign_def py_lower_def py_lower_char_def
      floatnumber_def number_def digitpart_def is_digit_def exponent_def digits_val_def digit_val_def
      round_binary64_def round_half_even_def pow2_def Let_def)

lemma py_float_189: "py_float ''189'' = Some (Finite 189)"
  by (simp add: py_float_def py_strip_def strip_with_def py_isspace_def is_number_space_def take_sign_def py_lower_def py_lower_char_def
      floatnumber_def number_def digitpart_def is_digit_def exponent_def digits_val_def digit_val_def
      round_binary64_def round_half_even_def pow2_def Let_def)

lemma py_float_inf: "py_float ''inf'' = Some PosInf"
  by (simp add: py_float_def py_strip_def strip_with_def py_isspace_def is_number_space_def take_sign_def py_lower_def py_lower_char_def)

lemma py_int_keys:
  "py_int ''1'' = Inr 1" "py_int ''2'' = Inr 2" "py_int ''3'' = Inr 3" "py_int ''4'' = Inr 4"
  "py_int ''5'' = Inr 5" "py_int ''6'' = Inr 6" "py_int ''7'' = Inr 7" "py_int ''8'' = Inr 8"
  "py_int ''9'' = Inr 9" "py_int ''10'' = Inr 10" "py_int ''11'' = Inr 11" "py_int ''12'' = Inr 12"
  by (simp_all add: py_int_def py_strip_def strip_with_def py_isspace_def is_number_space_def take_sign_def digitpart_def is_digit_def
      digits_val_def digit_val_def)

lemma month_map_key:
  assumes "month_map month = Some month_name"
  shows "\<exists>m. py_int month = Inr m \<and> 1 \<le> m \<and> m \<le> 12"
  using assms py_int_keys by (auto simp: month_map_def split: if_splits)

lemma aggregate_futures_results:
  assumes "distinct (map fst futs)" and "(w, r) \<in> set futs"
  shows "results (aggregate_futures futs) w = stored_entry r"
  using results_fold [OF assms, of "\<lparr>results = Map.empty, cheapest_weekend = PosInf\<rparr>"]
  by (simp add: aggregate_futures_def split: option.splits)

lemma aggregate_futures_results_notin:
  assumes "w \<notin> fst ` set futs"
  shows "results (aggregate_futures futs) w = None"
  using results_fold_notin [OF assms, of "\<lparr>results = Map.empty, cheapest_weekend = PosInf\<rparr>"]
  by (simp add: aggregate_futures_def)

lemma price_of_Some:
  "price_of fut = Some p \<longleftrightarrow> (\<exists>w s. fut = (w, Inr (Some s)) \<and> py_float s = Some p)"
  by (cases fut) (auto simp: price_of_def split: sum.splits option.splits)

lemma aggregate_futures_cheapest:
  shows "cheapest_weekend (aggregate_futures futs) \<noteq> NaN"
    and "\<not> py_lt PosInf (cheapest_weekend (aggregate_futures futs))"
    and "(w, Inr (Some s)) \<in> set futs \<Longrightarrow> py_float s = Some p
           \<Longrightarrow> \<not> py_lt p (cheapest_weekend (aggregate_futures futs))"
    and "cheapest_weekend (aggregate_futures futs) = PosInf
         \<or> (\<exists>w s. (w, Inr (Some s)) \<in> set futs \<and> py_float s = Some (cheapest_weekend (aggregate_futures futs)))"
proof -
  let ?a = "\<lparr>results = Map.empty, cheapest_weekend = PosInf\<rparr>"
  have n: "cheapest_weekend ?a \<noteq> NaN" by simp
  note c = cheapest_fold [OF n, of futs, folded aggregate_futures_def]
  from c show "cheapest_weekend (aggregate_futures futs) \<noteq> NaN" by blast
  from c show "\<not> py_lt PosInf (cheapest_weekend (aggregate_futures futs))" by simp
  show "\<not> py_lt p (cheapest_weekend (aggregate_futures futs))"
    if "(w, Inr (Some s)) \<in> set futs" "py_float s = Some p"
  proof -
    from that have "price_of (w, Inr (Some s)) = Some p" by (simp add: price_of_def)
    with c that(1) show ?thesis by blast
  qed
  from c have "cheapest_weekend (aggregate_futures futs) = PosInf
      \<or> (\<exists>fut\<in>set futs. price_of fut = Some (cheapest_weekend (aggregate_futures futs)))"
    by simp
  then show "cheapest_weekend (aggregate_futures futs) = PosInf
     \<or> (\<exists>w s. (w, Inr (Some s)) \<in> set futs \<and> py_float s = Some (cheapest_weekend (aggregate_futures futs)))"
    unfolding price_of_Some by blast
qed

text \<open>
  Claim C4. The futures are handled in any order; each weekend has one future. Every
  result that is a string is kept in \<open>results\<close>, whether it parses as a number or not.
  The best value \<open>cheapest_weekend\<close> is the minimum of the results that parse as a
  number: it is not greater than any of them, and it is one of them or the initial
  \<open>inf\<close>; a result that does not parse (an error string) or that parses to a NaN does
  not enter it. For the outcomes \<open>{1: "231", 2: "ERROR: timeout", 3: "189"}\<close> the best
  value is 189 and the three entries are kept (the witness below).
\<close>

theorem aggregator_minimum_and_retention:
  assumes "distinct (map fst futs)"
  shows "(\<forall>w s. (w, Inr (Some s)) \<in> set futs \<longrightarrow> results (aggregate_futures futs) w = Some s)
     \<and> (\<forall>w s p. (w, Inr (Some s)) \<in> set futs \<and> py_float s = Some p
           \<longrightarrow> \<not> py_lt p (cheapest_weekend (aggregate_futures futs)))
     \<and> (cheapest_weekend (aggregate_futures futs) = PosInf
         \<or> (\<exists>w s. (w, Inr (Some s)) \<in> set futs
               \<and> py_float s = Some (cheapest_weekend (aggregate_futures futs))))
     \<and> cheapest_weekend (aggregate_futures futs) \<noteq> NaN"
proof (intro conjI allI impI)
  fix w s assume "(w, Inr (Some s)) \<in> set futs"
  from aggregate_futures_results [OF assms this]
  show "results (aggregate_futures futs) w = Some s" by (simp add: stored_entry_def)
next
  fix w s p assume "(w, Inr (Some s)) \<in> set futs \<and> py_float s = Some p"
  then show "\<not> py_lt p (cheapest_weekend (aggregate_futures futs))"
    using aggregate_futures_cheapest(3) by blast
next
  show "cheapest_weekend (aggregate_futures futs) = PosInf
         \<or> (\<exists>w s. (w, Inr (Some s)) \<in> set futs
               \<and> py_float s = Some (cheapest_weekend (aggregate_futures futs)))"
    by (rule aggregate_futures_cheapest(4))
next
  show "cheapest_weekend (aggregate_futures futs) \<noteq> NaN" by (rule aggregate_futures_cheapest(1))
qed

theorem aggregator_minimum_and_retention_witness:
  "distinct (map fst example_outcomes)
   \<and> results (aggregate_futures example_outcomes) 1 = Some ''231''
   \<and> results (aggregate_futures example_outcomes) 2 = Some ''ERROR: timeout''
   \<and> results (aggregate_futures example_outcomes) 3 = Some ''189''
   \<and> py_float ''231'' = Some (Finite 231)
   \<and> py_float ''ERROR: timeout'' = None
   \<and> py_float ''189'' = Some (Finite 189)
   \<and> cheapest_weekend (aggregate_futures example_outcomes) = Finite 189"
proof -
  have d: "distinct (map fst example_outcomes)" by (simp add: example_outcomes_def)
  have e: "py_float ''ERROR: timeout'' = None" using py_float_tagged(1) [of "''timeout''"] by simp
  note t = aggregator_minimum_and_retention [OF d]
  have m: "(1, Inr (Some ''231'')) \<in> set example_outcomes"
    "(2, Inr (Some ''ERROR: timeout'')) \<in> set example_outcomes"
    "(3, Inr (Some ''189'')) \<in> set example_outcomes"
    by (simp_all add: example_outcomes_def)
  from t m have r: "results (aggregate_futures example_outcomes) 1 = Some ''231''"
    "results (aggregate_futures example_outcomes) 2 = Some ''ERROR: timeout''"
    "results (aggregate_futures example_outcomes) 3 = Some ''189''"
    by blast+
  have c: "cheapest_weekend (aggregate_futures example_outcomes) = Finite 189"
    by (simp add: aggregate_futures_def example_outcomes_def process_future_def py_float_231 py_float_189 e)
  from d r e c py_float_231 py_float_189 show ?thesis by simp
qed

text \<open>
  Claim C5, as amended. \<open>main\<close> has no report of its own for the case that no result
  parses as a number: the best value then keeps its initial value \<open>float('inf')\<close>, and
  that value is what is printed. The best value is \<open>inf\<close> exactly when no result parses
  to a number below \<open>inf\<close>; \<open>inf\<close> differs from zero.
\<close>

theorem no_numeric_result_leaves_infinity:
  "((\<forall>w s. (w, Inr (Some s)) \<in> set futs \<longrightarrow> py_float s = None)
      \<longrightarrow> cheapest_weekend (aggregate_futures futs) = PosInf)
   \<and> (cheapest_weekend (aggregate_futures futs) = PosInf
        \<longleftrightarrow> (\<forall>w s p. (w, Inr (Some s)) \<in> set futs \<and> py_float s = Some p \<longrightarrow> \<not> py_lt p PosInf))
   \<and> PosInf \<noteq> Finite 0"
proof -
  let ?c = "cheapest_weekend (aggregate_futures futs)"
  have iff: "?c = PosInf
      \<longleftrightarrow> (\<forall>w s p. (w, Inr (Some s)) \<in> set futs \<and> py_float s = Some p \<longrightarrow> \<not> py_lt p PosInf)"
  proof
    assume "?c = PosInf"
    with aggregate_futures_cheapest(3) [of _ _ futs]
    show "\<forall>w s p. (w, Inr (Some s)) \<in> set futs \<and> py_float s = Some p \<longrightarrow> \<not> py_lt p PosInf"
      by metis
  next
    assume a: "\<forall>w s p. (w, Inr (Some s)) \<in> set futs \<and> py_float s = Some p \<longrightarrow> \<not> py_lt p PosInf"
    from aggregate_futures_cheapest(4) [of futs] a have "?c = PosInf \<or> \<not> py_lt ?c PosInf" by blast
    with aggregate_futures_cheapest(1) [of futs] show "?c = PosInf" by (cases ?c) simp_all
  qed
  have "?c = PosInf" if "\<forall>w s. (w, Inr (Some s)) \<in> set futs \<longrightarrow> py_float s = None"
  proof -
    from that have "\<forall>w s p. (w, Inr (Some s)) \<in> set futs \<and> py_float s = Some p \<longrightarrow> \<not> py_lt p PosInf"
      by fastforce
    with iff show ?thesis by blast
  qed
  with iff show ?thesis by blast
qed

lemma check_flight_price_start_raises:
  assumes "start_outcome env = Inl e"
  shows "check_flight_price env month origin destination w = ([DesktopStart (flight_desktop w)], Inl e)"
  using assms by (simp add: check_flight_price_def Let_def)

lemma check_flight_price_no_weekend:
  assumes "start_outcome env = Inr c" and "py_int month = Inr m"
    and "get_nth_weekend_dates 2025 m w = Inr (None, None)"
  shows "check_flight_price env month origin destination w
     = (started_events w @ stopped_events w, Inr None)"
  using assms by (simp add: check_flight_price_def Let_def started_events_def stopped_events_def)

lemma check_flight_price_runs:
  assumes "start_outcome env = Inr c" and "py_int month = Inr m"
    and "get_nth_weekend_dates 2025 m w = Inr (Some f, Some s)"
  shows "check_flight_price env month origin destination w =
     (case run_agent env (flight_desktop w) month of
        (tr, Inr text) \<Rightarrow>
          (started_events w @ [Logging LogInfo] @ tr @ stopped_events w, Inr (Some text))
      | (tr, Inl e) \<Rightarrow>
          (started_events w @ [Logging LogInfo] @ tr @ [Logging LogError] @ stopped_events w,
           Inr (Some (''EXCEPTION: '' @ str_exc e))))"
  using assms
  by (simp add: check_flight_price_def Let_def started_events_def stopped_events_def
      split: prod.splits sum.splits)

lemma run_agent_no_stop: "DesktopStop x \<notin> set (fst (run_agent env d month))"
  by (auto simp: run_agent_def split: option.splits sum.splits prod.splits)

lemma days_before_year_2025: "days_before_year 2025 = 739251"
  by (simp add: days_before_year_def)

lemma dates_2025:
  assumes "1 \<le> m" "m \<le> 12" "1 \<le> w" "w \<le> 52"
  shows "get_nth_weekend_dates 2025 m w = Inr (None, None)
     \<or> (\<exists>f. get_nth_weekend_dates 2025 m w = Inr (Some f, Some (f + 2)))"
proof -
  let ?first = "\<lparr>date_year = 2025, date_month = m, date_day = 1\<rparr>"
  have "days_before_month 2025 m \<le> 334" using assms(1,2) by (simp add: days_before_month_def is_leap_def)
  then have o: "toordinal ?first \<le> 739586" by (simp add: toordinal_def days_before_year_2025)
  have "0 \<le> (4 - weekday ?first) mod 7" "(4 - weekday ?first) mod 7 < 7" by simp_all
  with o assms(4)
  have "\<not> MAXORDINAL < toordinal ?first + (1 + (4 - weekday ?first) mod 7 + 7 * (w - 1) - 1) + 2"
    by (simp add: MAXORDINAL_def)
  with get_nth_weekend_dates_eq [of 2025 m w, OF _ _ assms] show ?thesis
    by (simp split: if_splits)
qed

lemma weekends_range: "w \<in> set weekends \<Longrightarrow> 1 \<le> w \<and> w \<le> 52"
  by (auto simp: weekends_def)

lemma get_nth_weekend_dates_shape:
  assumes "get_nth_weekend_dates y m n = Inr (a, b)"
  shows "(a = None \<and> b = None) \<or> (\<exists>f s. a = Some f \<and> b = Some s)"
  using assms
  by (auto simp: get_nth_weekend_dates_def Let_def split: sum.splits if_splits)

text \<open>
  Claim C8. When the agent ends with a status that is neither \<open>COMPLETE\<close> nor \<open>ERROR\<close>,
  the worker logs a warning and returns the string \<open>UNKNOWN: Status\<close> followed by the
  status, which is what \<open>main\<close> stores for the weekend. The string does not parse as a
  number, so it is never taken for a price.
\<close>

theorem unrecognized_status_is_failure:
  assumes "start_outcome env = Inr container"
    and "month_map month = Some month_name"
    and "py_int month = Inr m"
    and "get_nth_weekend_dates 2025 m weekend_number = Inr (Some friday_date, Some sunday_date)"
    and "action_outcome env = Inr (status, data)"
    and "status \<noteq> COMPLETE" and "status \<noteq> ERROR"
  shows "snd (check_flight_price env month origin destination weekend_number)
       = Inr (Some (''UNKNOWN: Status '' @ str_status status))
     \<and> py_float (''UNKNOWN: Status '' @ str_status status) = None
     \<and> fst (run_agent env (flight_desktop weekend_number) month)
       = [DesktopAction (flight_desktop weekend_number), Logging LogWarning]
     \<and> stored_entry (snd (check_flight_price env month origin destination weekend_number))
       = Some (''UNKNOWN: Status '' @ str_status status)"
proof -
  have r: "run_agent env (flight_desktop weekend_number) month
      = ([DesktopAction (flight_desktop weekend_number), Logging LogWarning],
         Inr (''UNKNOWN: Status '' @ str_status status))"
    using assms(2,5,6,7) by (simp add: run_agent_def)
  have c: "snd (check_flight_price env month origin destination weekend_number)
       = Inr (Some (''UNKNOWN: Status '' @ str_status status))"
    unfolding check_flight_price_runs [OF assms(1,3,4)] r by simp
  from r c py_float_tagged(3) [of "str_status status"] show ?thesis
    by (simp add: stored_entry_def)
qed

lemma main_eq:
  assumes "stdin = l1 # l2 # l3 # rest" and "py_strip l3 \<in> dom month_map"
  shows "main env completed stdin =
     Inr (aggregate_futures (map (future_of env (py_strip l3) (py_strip l1) (py_strip l2)) completed))"
  using assms by (auto simp: main_def py_input_def Let_def)

lemma main_results:
  assumes "stdin = l1 # l2 # l3 # rest" and "py_strip l3 \<in> dom month_map"
    and "distinct completed" and "w \<in> set completed"
  shows "\<exists>agg. main env completed stdin = Inr agg
     \<and> results agg w = stored_entry (snd (check_flight_price (env w) (py_strip l3) (py_strip l1) (py_strip l2) w))"
proof -
  let ?futs = "map (future_of env (py_strip l3) (py_strip l1) (py_strip l2)) completed"
  have d: "distinct (map fst ?futs)" using assms(3) by (simp add: future_of_def comp_def)
  have mem: "(w, snd (check_flight_price (env w) (py_strip l3) (py_strip l1) (py_strip l2) w)) \<in> set ?futs"
    using assms(4) by (auto simp: future_of_def image_iff)
  from aggregate_futures_results [OF d mem]
  have "results (aggregate_futures ?futs) w
      = stored_entry (snd (check_flight_price (env w) (py_strip l3) (py_strip l1) (py_strip l2) w))" .
  with main_eq [OF assms(1,2)] show ?thesis by simp
qed

lemma worker_none_iff:
  "snd (check_flight_price env month origin destination w) = Inr None
     \<longleftrightarrow> (\<exists>c. start_outcome env = Inr c)
        \<and> (\<exists>m. py_int month = Inr m \<and> get_nth_weekend_dates 2025 m w = Inr (None, None))"
proof (cases "start_outcome env")
  case (Inl e)
  then show ?thesis by (simp add: check_flight_price_start_raises)
next
  case start: (Inr c)
  show ?thesis
  proof (cases "py_int month")
    case (Inl e)
    with start show ?thesis by (simp add: check_flight_price_def Let_def)
  next
    case m: (Inr m)
    show ?thesis
    proof (cases "get_nth_weekend_dates 2025 m w")
      case (Inl e)
      with start m show ?thesis by (simp add: check_flight_price_def Let_def)
    next
      case (Inr p)
      obtain a b where p: "p = (a, b)" by (cases p)
      from get_nth_weekend_dates_shape [of 2025 m w a b] Inr p
      consider "a = None" "b = None" | f s where "a = Some f" "b = Some s" by auto
      then show ?thesis
      proof cases
        case 1
        with start m Inr p check_flight_price_no_weekend [OF start m, of w] show ?thesis by simp
      next
        case 2
        with start m Inr p check_flight_price_runs [OF start m, of w f s] show ?thesis
          by (simp split: prod.splits sum.splits)
      qed
    qed
  qed
qed

text \<open>
  Claim C2, as amended. \<open>main\<close> reads three lines, the third a key of \<open>month_map\<close>, and
  handles the future of every weekend once. Then \<open>results\<close> has an entry for every
  weekend whose worker returned a string, namely that string, and for every weekend
  whose worker raised, namely \<open>ERROR:\<close> followed by the message. It has no entry exactly
  for the weekends whose worker returned \<open>None\<close>, which a worker does exactly when its
  desktop started and the month has no such weekend.
\<close>

theorem results_entry_unless_none:
  assumes "stdin = l1 # l2 # l3 # rest" and "py_strip l3 \<in> dom month_map"
    and "distinct completed" and "set completed = set weekends"
  shows "\<exists>agg. main env completed stdin = Inr agg \<and>
     (\<forall>w\<in>set weekends.
        (\<forall>e. snd (check_flight_price (env w) (py_strip l3) (py_strip l1) (py_strip l2) w) = Inl e
              \<longrightarrow> results agg w = Some (''ERROR: '' @ str_exc e))
      \<and> (\<forall>s. snd (check_flight_price (env w) (py_strip l3) (py_strip l1) (py_strip l2) w) = Inr (Some s)
              \<longrightarrow> results agg w = Some s)
      \<and> (results agg w = None
           \<longleftrightarrow> snd (check_flight_price (env w) (py_strip l3) (py_strip l1) (py_strip l2) w) = Inr None)
      \<and> (snd (check_flight_price (env w) (py_strip l3) (py_strip l1) (py_strip l2) w) = Inr None
           \<longleftrightarrow> (\<exists>c. start_outcome (env w) = Inr c)
              \<and> (\<exists>m. py_int (py_strip l3) = Inr m \<and> get_nth_weekend_dates 2025 m w = Inr (None, None))))"
proof -
  let ?agg = "aggregate_futures (map (future_of env (py_strip l3) (py_strip l1) (py_strip l2)) completed)"
  let ?worker = "\<lambda>w. snd (check_flight_price (env w) (py_strip l3) (py_strip l1) (py_strip l2) w)"
  have m: "main env completed stdin = Inr ?agg" by (rule main_eq [OF assms(1,2)])
  have r: "results ?agg w = stored_entry (?worker w)" if "w \<in> set weekends" for w
    using main_results [OF assms(1,2,3), of w env] that assms(4) m by simp
  have a: "(\<forall>e. ?worker w = Inl e \<longrightarrow> results ?agg w = Some (''ERROR: '' @ str_exc e))
      \<and> (\<forall>s. ?worker w = Inr (Some s) \<longrightarrow> results ?agg w = Some s)
      \<and> (results ?agg w = None \<longleftrightarrow> ?worker w = Inr None)"
    if "w \<in> set weekends" for w
    unfolding r [OF that]
    by (cases "?worker w") (auto simp: stored_entry_def split: option.splits)
  note b = worker_none_iff [of "env w" "py_strip l3" "py_strip l1" "py_strip l2" w for w]
  from a b have "\<forall>w\<in>set weekends.
      (\<forall>e. ?worker w = Inl e \<longrightarrow> results ?agg w = Some (''ERROR: '' @ str_exc e))
      \<and> (\<forall>s. ?worker w = Inr (Some s) \<longrightarrow> results ?agg w = Some s)
      \<and> (results ?agg w = None \<longleftrightarrow> ?worker w = Inr None)
      \<and> (?worker w = Inr None
           \<longleftrightarrow> (\<exists>c. start_outcome (env w) = Inr c)
              \<and> (\<exists>m. py_int (py_strip l3) = Inr m \<and> get_nth_weekend_dates 2025 m w = Inr (None, None)))"
    by blast
  with m show ?thesis by blast
qed

lemma toordinal_2025_2: "toordinal \<lparr>date_year = 2025, date_month = 2, date_day = 1\<rparr> = 739283"
  by (simp add: toordinal_def days_before_year_2025 days_before_month_def)

lemma toordinal_2025_8: "toordinal \<lparr>date_year = 2025, date_month = 8, date_day = 1\<rparr> = 739464"
  by (simp add: toordinal_def days_before_year_2025 days_before_month_def is_leap_def)

lemma weekday_2025_2: "weekday \<lparr>date_year = 2025, date_month = 2, date_day = 1\<rparr> = 5"
  by (simp add: weekday_def toordinal_2025_2)

lemma weekday_2025_8: "weekday \<lparr>date_year = 2025, date_month = 8, date_day = 1\<rparr> = 4"
  by (simp add: weekday_def toordinal_2025_8)

lemma dates_february_2025:
  assumes "1 \<le> w" "w \<le> 52"
  shows "get_nth_weekend_dates 2025 2 w =
     (if w \<le> 3 then Inr (Some (7 * w), Some (7 * w + 2)) else Inr (None, None))"
  using get_nth_weekend_dates_eq [of 2025 2 w] assms
  by (simp add: weekday_2025_2 toordinal_2025_2 MAXORDINAL_def days_in_month_def is_leap_def)

lemma dates_august_2025:
  assumes "1 \<le> w" "w \<le> 52"
  shows "get_nth_weekend_dates 2025 8 w =
     (if w \<le> 5 then Inr (Some (7 * w - 6), Some (7 * w - 4)) else Inr (None, None))"
  using get_nth_weekend_dates_eq [of 2025 8 w] assms
  by (simp add: weekday_2025_8 toordinal_2025_8 MAXORDINAL_def days_in_month_def)

lemma py_strip_examples:
  "py_strip ''SFO'' = ''SFO''" "py_strip ''JFK'' = ''JFK''" "py_strip ''2'' = ''2''" "py_strip ''8'' = ''8''"
  by (simp_all add: py_strip_def strip_with_def py_isspace_def is_number_space_def)

lemma month_map_examples: "month_map ''2'' = Some ''February''" "month_map ''8'' = Some ''August''"
  by (simp_all add: month_map_def)

lemma py_float_100: "py_float ''100'' = Some (Finite 100)"
  by (simp add: py_float_def py_strip_def strip_with_def py_isspace_def is_number_space_def take_sign_def py_lower_def py_lower_char_def
      floatnumber_def number_def digitpart_def is_digit_def exponent_def digits_val_def digit_val_def
      round_binary64_def round_half_even_def pow2_def Let_def)

lemma run_agent_completing:
  assumes "month_map month = Some month_name"
  shows "run_agent (completing_env text) d month = ([DesktopAction d, Logging LogInfo], Inr text)"
  using assms by (simp add: run_agent_def completing_env_def)

lemma worker_february:
  assumes "1 \<le> w" "w \<le> 52"
  shows "snd (check_flight_price (completing_env text) ''2'' origin destination w)
     = (if w \<le> 3 then Inr (Some text) else Inr None)"
proof (cases "w \<le> 3")
  case True
  with dates_february_2025 [OF assms]
  have d: "get_nth_weekend_dates 2025 2 w = Inr (Some (7 * w), Some (7 * w + 2))" by simp
  have s: "start_outcome (completing_env text) = Inr ''container''" by (simp add: completing_env_def)
  from True show ?thesis
    unfolding check_flight_price_runs [OF s py_int_keys(2) d]
    by (simp add: run_agent_completing [OF month_map_examples(1)])
next
  case False
  with dates_february_2025 [OF assms]
  have d: "get_nth_weekend_dates 2025 2 w = Inr (None, None)" by simp
  have s: "start_outcome (completing_env text) = Inr ''container''" by (simp add: completing_env_def)
  from False show ?thesis
    unfolding check_flight_price_no_weekend [OF s py_int_keys(2) d] by simp
qed

text \<open>
  Claim C2 as stated fails: February 2025 has three weekends whose Friday and Sunday
  lie in the month, so the workers of the weekends 4 and 5 return \<open>None\<close> and \<open>results\<close>
  has no entry for them, although both were submitted.
\<close>

theorem results_entry_for_every_task_counterexample:
  "(5::int) \<in> set weekends
   \<and> main example_env weekends [''SFO'', ''JFK'', ''2'']
       = Inr \<lparr>results = [1 \<mapsto> ''100'', 2 \<mapsto> ''100'', 3 \<mapsto> ''100''], cheapest_weekend = Finite 100\<rparr>
   \<and> [1 \<mapsto> ''100'', 2 \<mapsto> ''100'', 3 \<mapsto> ''100''] (5::int) = None"
proof -
  have f: "map (future_of example_env ''2'' ''SFO'' ''JFK'') weekends
      = [(1, Inr (Some ''100'')), (2, Inr (Some ''100'')), (3, Inr (Some ''100'')), (4, Inr None), (5, Inr None)]"
    by (simp add: weekends_def future_of_def example_env_def worker_february)
  have m: "py_strip ''2'' \<in> dom month_map" by (simp add: py_strip_examples month_map_examples domIff)
  have "main example_env weekends [''SFO'', ''JFK'', ''2'']
      = Inr (aggregate_futures (map (future_of example_env ''2'' ''SFO'' ''JFK'') weekends))"
    using main_eq [of "[''SFO'', ''JFK'', ''2'']" "''SFO''" "''JFK''" "''2''" "[]" example_env weekends] m
    by (simp add: py_strip_examples)
  also have "aggregate_futures (map (future_of example_env ''2'' ''SFO'' ''JFK'') weekends)
      = \<lparr>results = [1 \<mapsto> ''100'', 2 \<mapsto> ''100'', 3 \<mapsto> ''100''], cheapest_weekend = Finite 100\<rparr>"
    unfolding f by (simp add: aggregate_futures_def process_future_def py_float_100)
  finally show ?thesis by (simp add: weekends_def)
qed

theorem results_entry_unless_none_witness:
  "[''SFO'', ''JFK'', ''2''] = ''SFO'' # ''JFK'' # ''2'' # [] \<and> py_strip ''2'' \<in> dom month_map
   \<and> distinct weekends
   \<and> (1::int) \<in> set weekends \<and> (5::int) \<in> set weekends
   \<and> snd (check_flight_price (example_env 1) ''2'' ''SFO'' ''JFK'' 1) = Inr (Some ''100'')
   \<and> snd (check_flight_price (example_env 5) ''2'' ''SFO'' ''JFK'' 5) = Inr None
   \<and> results (projr (main example_env weekends [''SFO'', ''JFK'', ''2''])) 1 = Some ''100''
   \<and> results (projr (main example_env weekends [''SFO'', ''JFK'', ''2''])) 5 = None"
proof -
  have m: "py_strip ''2'' \<in> dom month_map" by (simp add: py_strip_examples month_map_examples domIff)
  have d: "distinct weekends" by (simp add: weekends_def)
  have w: "(1::int) \<in> set weekends" "(5::int) \<in> set weekends" by (simp_all add: weekends_def)
  have c: "snd (check_flight_price (example_env 1) ''2'' ''SFO'' ''JFK'' 1) = Inr (Some ''100'')"
    "snd (check_flight_price (example_env 5) ''2'' ''SFO'' ''JFK'' 5) = Inr None"
    by (simp_all add: example_env_def worker_february)
  from results_entry_unless_none
    [of "[''SFO'', ''JFK'', ''2'']" "''SFO''" "''JFK''" "''2''" "[]" weekends example_env, OF refl m d refl]
  obtain agg where a: "main example_env weekends [''SFO'', ''JFK'', ''2''] = Inr agg"
    and r: "\<forall>w\<in>set weekends.
        (\<forall>s. snd (check_flight_price (example_env w) (py_strip ''2'') (py_strip ''SFO'') (py_strip ''JFK'') w) = Inr (Some s)
              \<longrightarrow> results agg w = Some s)
      \<and> (results agg w = None
           \<longleftrightarrow> snd (check_flight_price (example_env w) (py_strip ''2'') (py_strip ''SFO'') (py_strip ''JFK'') w) = Inr None)"
    by blast
  from r w c have "results agg 1 = Some ''100''" "results agg 5 = None"
    by (simp_all add: py_strip_examples)
  with a m d w c show ?thesis by simp
qed

text \<open>
  Claim C6. \<open>main\<close> returns normally whatever the workers do. An exception that leaves
  a worker (one of \<open>start\<close>, for example) is caught when the result of its future is
  read, and stored as \<open>ERROR:\<close> followed by its message; an exception raised during the
  run of the agent is caught in the worker and stored as \<open>EXCEPTION:\<close> followed by its
  message. The entry of a weekend depends on the environment of that weekend only:
  what the other workers do does not change it.
\<close>

theorem worker_fault_becomes_outcome:
  assumes "stdin = l1 # l2 # l3 # rest" and "py_strip l3 \<in> dom month_map"
    and "distinct completed" and "set completed = set weekends"
  shows "\<exists>agg. main env completed stdin = Inr agg \<and>
     (\<forall>w\<in>set weekends.
        (\<forall>e. snd (check_flight_price (env w) (py_strip l3) (py_strip l1) (py_strip l2) w) = Inl e
              \<longrightarrow> results agg w = Some (''ERROR: '' @ str_exc e))
      \<and> (\<forall>e. start_outcome (env w) = Inl e \<longrightarrow> results agg w = Some (''ERROR: '' @ str_exc e))
      \<and> (\<forall>c m f s tr e. start_outcome (env w) = Inr c \<and> py_int (py_strip l3) = Inr m
              \<and> get_nth_weekend_dates 2025 m w = Inr (Some f, Some s)
              \<and> run_agent (env w) (flight_desktop w) (py_strip l3) = (tr, Inl e)
              \<longrightarrow> results agg w = Some (''EXCEPTION: '' @ str_exc e))
      \<and> (\<forall>env'. env' w = env w
              \<longrightarrow> (\<exists>agg'. main env' completed stdin = Inr agg' \<and> results agg' w = results agg w)))"
proof -
  let ?agg = "\<lambda>env. aggregate_futures (map (future_of env (py_strip l3) (py_strip l1) (py_strip l2)) completed)"
  let ?worker = "\<lambda>env w. snd (check_flight_price (env w) (py_strip l3) (py_strip l1) (py_strip l2) w)"
  have m: "main env completed stdin = Inr (?agg env)" for env by (rule main_eq [OF assms(1,2)])
  have r: "results (?agg env) w = stored_entry (?worker env w)" if "w \<in> set weekends" for w env
    using main_results [OF assms(1,2,3), of w env] that assms(4) m by simp
  have a: "results (?agg env) w = Some (''ERROR: '' @ str_exc e)"
    if "w \<in> set weekends" "?worker env w = Inl e" for w e
    using r [OF that(1), of env] that(2) by (simp add: stored_entry_def)
  have b: "results (?agg env) w = Some (''ERROR: '' @ str_exc e)"
    if "w \<in> set weekends" "start_outcome (env w) = Inl e" for w e
    using a [OF that(1), of e] check_flight_price_start_raises [OF that(2)] by simp
  have c: "results (?agg env) w = Some (''EXCEPTION: '' @ str_exc e)"
    if "w \<in> set weekends" "start_outcome (env w) = Inr c" "py_int (py_strip l3) = Inr m"
      "get_nth_weekend_dates 2025 m w = Inr (Some f, Some s)"
      "run_agent (env w) (flight_desktop w) (py_strip l3) = (tr, Inl e)" for w c m f s tr e
    using r [OF that(1), of env] check_flight_price_runs [OF that(2,3,4)] that(5)
    by (simp add: stored_entry_def)
  have d: "\<exists>agg'. main env' completed stdin = Inr agg' \<and> results agg' w = results (?agg env) w"
    if "w \<in> set weekends" "env' w = env w" for w env'
    using m [of env'] r [OF that(1), of env'] r [OF that(1), of env] that(2) by simp
  have "\<forall>w\<in>set weekends.
        (\<forall>e. ?worker env w = Inl e \<longrightarrow> results (?agg env) w = Some (''ERROR: '' @ str_exc e))
      \<and> (\<forall>e. start_outcome (env w) = Inl e \<longrightarrow> results (?agg env) w = Some (''ERROR: '' @ str_exc e))
      \<and> (\<forall>c m f s tr e. start_outcome (env w) = Inr c \<and> py_int (py_strip l3) = Inr m
              \<and> get_nth_weekend_dates 2025 m w = Inr (Some f, Some s)
              \<and> run_agent (env w) (flight_desktop w) (py_strip l3) = (tr, Inl e)
              \<longrightarrow> results (?agg env) w = Some (''EXCEPTION: '' @ str_exc e))
      \<and> (\<forall>env'. env' w = env w
              \<longrightarrow> (\<exists>agg'. main env' completed stdin = Inr agg' \<and> results agg' w = results (?agg env) w))"
  proof (intro ballI conjI allI impI)
    fix w e assume "w \<in> set weekends" "?worker env w = Inl e"
    then show "results (?agg env) w = Some (''ERROR: '' @ str_exc e)" by (rule a)
  next
    fix w e assume "w \<in> set weekends" "start_outcome (env w) = Inl e"
    then show "results (?agg env) w = Some (''ERROR: '' @ str_exc e)" by (rule b)
  next
    fix w c m f s tr e
    assume "w \<in> set weekends"
      and "start_outcome (env w) = Inr c \<and> py_int (py_strip l3) = Inr m
              \<and> get_nth_weekend_dates 2025 m w = Inr (Some f, Some s)
              \<and> run_agent (env w) (flight_desktop w) (py_strip l3) = (tr, Inl e)"
    then show "results (?agg env) w = Some (''EXCEPTION: '' @ str_exc e)" using c by blast
  next
    fix w env' assume "w \<in> set weekends" "env' w = env w"
    then show "\<exists>agg'. main env' completed stdin = Inr agg' \<and> results agg' w = results (?agg env) w"
      by (rule d)
  qed
  with m [of env] show ?thesis by blast
qed

lemma worker_august_completing:
  assumes "w \<in> set weekends"
  shows "snd (check_flight_price (completing_env text) ''8'' origin destination w) = Inr (Some text)"
proof -
  from assms have w: "1 \<le> w" "w \<le> 52" "w \<le> 5" by (auto simp: weekends_def)
  with dates_august_2025 [of w]
  have d: "get_nth_weekend_dates 2025 8 w = Inr (Some (7 * w - 6), Some (7 * w - 4))" by simp
  have s: "start_outcome (completing_env text) = Inr ''container''" by (simp add: completing_env_def)
  show ?thesis
    unfolding check_flight_price_runs [OF s py_int_keys(8) d]
    by (simp add: run_agent_completing [OF month_map_examples(2)])
qed

theorem worker_fault_becomes_outcome_witness:
  "[''SFO'', ''JFK'', ''8''] = ''SFO'' # ''JFK'' # ''8'' # [] \<and> py_strip ''8'' \<in> dom month_map
   \<and> distinct weekends \<and> (2::int) \<in> set weekends \<and> (3::int) \<in> set weekends
   \<and> start_outcome (faulty_env 2) = Inr ''container'' \<and> py_int (py_strip ''8'') = Inr 8
   \<and> get_nth_weekend_dates 2025 8 2 = Inr (Some 8, Some 10)
   \<and> run_agent (faulty_env 2) (flight_desktop 2) (py_strip ''8'')
       = ([DesktopAction (flight_desktop 2)], Inl (RuntimeFault ''boom''))
   \<and> results (projr (main faulty_env weekends [''SFO'', ''JFK'', ''8''])) 2 = Some ''EXCEPTION: boom''
   \<and> results (projr (main faulty_env weekends [''SFO'', ''JFK'', ''8''])) 3 = Some ''100''"
proof -
  have m: "py_strip ''8'' \<in> dom month_map" by (simp add: py_strip_examples month_map_examples domIff)
  have d: "distinct weekends" by (simp add: weekends_def)
  have w: "(2::int) \<in> set weekends" "(3::int) \<in> set weekends" by (simp_all add: weekends_def)
  have s: "start_outcome (faulty_env 2) = Inr ''container''" by (simp add: faulty_env_def)
  have i: "py_int (py_strip ''8'') = Inr 8" by (simp add: py_strip_examples py_int_keys)
  have g: "get_nth_weekend_dates 2025 8 2 = Inr (Some 8, Some 10)"
    using dates_august_2025 [of 2] by simp
  have r: "run_agent (faulty_env 2) (flight_desktop 2) (py_strip ''8'')
       = ([DesktopAction (flight_desktop 2)], Inl (RuntimeFault ''boom''))"
    by (simp add: run_agent_def faulty_env_def py_strip_examples month_map_examples)
  note T = worker_fault_becomes_outcome
    [of "[''SFO'', ''JFK'', ''8'']" "''SFO''" "''JFK''" "''8''" "[]" weekends faulty_env, OF refl m d refl]
  from T obtain agg where a: "main faulty_env weekends [''SFO'', ''JFK'', ''8''] = Inr agg"
    and b: "\<forall>w\<in>set weekends.
        (\<forall>e. snd (check_flight_price (faulty_env w) (py_strip ''8'') (py_strip ''SFO'') (py_strip ''JFK'') w) = Inl e
              \<longrightarrow> results agg w = Some (''ERROR: '' @ str_exc e))
      \<and> (\<forall>e. start_outcome (faulty_env w) = Inl e \<longrightarrow> results agg w = Some (''ERROR: '' @ str_exc e))
      \<and> (\<forall>c m f s tr e. start_outcome (faulty_env w) = Inr c \<and> py_int (py_strip ''8'') = Inr m
              \<and> get_nth_weekend_dates 2025 m w = Inr (Some f, Some s)
              \<and> run_agent (faulty_env w) (flight_desktop w) (py_strip ''8'') = (tr, Inl e)
              \<longrightarrow> results agg w = Some (''EXCEPTION: '' @ str_exc e))
      \<and> (\<forall>env'. env' w = faulty_env w
              \<longrightarrow> (\<exists>agg'. main env' weekends [''SFO'', ''JFK'', ''8''] = Inr agg' \<and> results agg' w = results agg w))"
    by (elim exE conjE)
  from bspec [OF b w(1)]
  have f: "\<forall>c m f s tr e. start_outcome (faulty_env 2) = Inr c \<and> py_int (py_strip ''8'') = Inr m
              \<and> get_nth_weekend_dates 2025 m 2 = Inr (Some f, Some s)
              \<and> run_agent (faulty_env 2) (flight_desktop 2) (py_strip ''8'') = (tr, Inl e)
              \<longrightarrow> results agg 2 = Some (''EXCEPTION: '' @ str_exc e)"
    by (elim conjE)
  from f [rule_format, of "''container''" 8 8 10 "[DesktopAction (flight_desktop 2)]" "RuntimeFault ''boom''"]
    s i g r
  have r2: "results agg 2 = Some (''EXCEPTION: '' @ str_exc (RuntimeFault ''boom''))"
    by simp
  have "results agg 3 = stored_entry (snd (check_flight_price (faulty_env 3) ''8'' ''SFO'' ''JFK'' 3))"
    using main_results [of "[''SFO'', ''JFK'', ''8'']" "''SFO''" "''JFK''" "''8''" "[]" weekends 3 faulty_env, OF refl m d w(2)] a
    by (simp add: py_strip_examples)
  then have r3: "results agg 3 = Some ''100''"
    using worker_august_completing [OF w(2), of "''100''"] by (simp add: faulty_env_def stored_entry_def)
  from a m d w s i g r r2 r3 show ?thesis by simp
qed

theorem unrecognized_status_is_failure_witness:
  "start_outcome unknown_env = Inr ''container''
   \<and> month_map ''8'' = Some ''August'' \<and> py_int ''8'' = Inr 8
   \<and> get_nth_weekend_dates 2025 8 2 = Inr (Some 8, Some 10)
   \<and> action_outcome unknown_env
       = Inr (NEEDS_INPUT, \<lparr>class_name = ''AgentResult'', output_text = None, error_message = None\<rparr>)
   \<and> NEEDS_INPUT \<noteq> COMPLETE \<and> NEEDS_INPUT \<noteq> ERROR
   \<and> snd (check_flight_price unknown_env ''8'' ''SFO'' ''JFK'' 2)
       = Inr (Some ''UNKNOWN: Status AgentStatus.NEEDS_INPUT'')
   \<and> py_float ''UNKNOWN: Status AgentStatus.NEEDS_INPUT'' = None"
proof -
  have s: "start_outcome unknown_env = Inr ''container''" by (simp add: unknown_env_def)
  have a: "action_outcome unknown_env
       = Inr (NEEDS_INPUT, \<lparr>class_name = ''AgentResult'', output_text = None, error_message = None\<rparr>)"
    by (simp add: unknown_env_def)
  have g: "get_nth_weekend_dates 2025 8 2 = Inr (Some 8, Some 10)"
    using dates_august_2025 [of 2] by simp
  have n: "NEEDS_INPUT \<noteq> COMPLETE" "NEEDS_INPUT \<noteq> ERROR" by simp_all
  from unrecognized_status_is_failure [OF s month_map_examples(2) py_int_keys(8) g a n,
      of "''SFO''" "''JFK''"]
  have "snd (check_flight_price unknown_env ''8'' ''SFO'' ''JFK'' 2)
       = Inr (Some ''UNKNOWN: Status AgentStatus.NEEDS_INPUT'')"
    "py_float ''UNKNOWN: Status AgentStatus.NEEDS_INPUT'' = None"
    by simp_all
  with s a g n month_map_examples(2) py_int_keys(8) show ?thesis by simp
qed

theorem no_numeric_result_leaves_infinity_witness:
  "py_float ''ERROR: x'' = None
   \<and> cheapest_weekend (aggregate_futures [(1, Inr (Some ''ERROR: x''))]) = PosInf"
proof -
  have e: "py_float ''ERROR: x'' = None" using py_float_tagged(1) [of "''x''"] by simp
  then have "\<forall>w s. (w, Inr (Some s)) \<in> set [(1::int, Inr (Some ''ERROR: x'') :: pyexc + string option)]
      \<longrightarrow> py_float s = None" by simp
  with no_numeric_result_leaves_infinity [of "[(1, Inr (Some ''ERROR: x''))]"] e
  show ?thesis by blast
qed

text \<open>
  Claim C5 as stated fails: for the outcomes \<open>{1: "ERROR: x"}\<close> the best value reported
  is the float \<open>inf\<close>, the same as for the outcomes \<open>{1: "inf"}\<close>, whose result parses as
  a number.
\<close>

theorem no_valid_result_report_counterexample:
  "py_float ''ERROR: x'' = None
   \<and> cheapest_weekend (aggregate_futures [(1, Inr (Some ''ERROR: x''))]) = PosInf
   \<and> py_float ''inf'' = Some PosInf
   \<and> cheapest_weekend (aggregate_futures [(1, Inr (Some ''inf''))]) = PosInf"
proof -
  have e: "py_float ''ERROR: x'' = None" using py_float_tagged(1) [of "''x''"] by simp
  show ?thesis
    by (simp add: aggregate_futures_def process_future_def e py_float_inf)
qed

section \<open>Properties of the sessions and of the Action State Machine\<close>

lemma run_agent_no_start: "DesktopStart x \<notin> set (fst (run_agent env d month))"
  by (auto simp: run_agent_def split: option.splits sum.splits prod.splits)

lemma step_terminal: "terminal (state r) \<Longrightarrow> step engine h r = Inr r"
  by (cases "state r") (simp_all add: step_def)

lemma run_steps_terminal: "terminal (state r) \<Longrightarrow> run_steps k engine h r = Inr r"
  by (induction k) (simp_all add: step_terminal)

lemma drive_run_steps:
  assumes "run_steps k engine h r0 = Inr r" and "\<not> terminal (state r)"
  shows "drive (k + n) engine h r0 = drive n engine h r"
  using assms
proof (induction k arbitrary: r0)
  case 0
  then show ?case by simp
next
  case (Suc k)
  have nt: "\<not> terminal (state r0)"
  proof
    assume t: "terminal (state r0)"
    then have "run_steps (Suc k) engine h r0 = Inr r0" by (rule run_steps_terminal)
    with Suc.prems(1) have "r0 = r" by (simp del: run_steps.simps)
    with t Suc.prems(2) show False by simp
  qed
  from Suc.prems(1) obtain r1 where s: "step engine h r0 = Inr r1" and r: "run_steps k engine h r1 = Inr r"
    by (auto split: sum.splits)
  from Suc.IH [OF r Suc.prems(2)] nt s show ?case by simp
qed

lemma drive_terminal: "terminal (state r) \<Longrightarrow> drive n engine h r = Some (Inr r)"
  by (cases n) simp_all

lemma step_declined:
  assumes "state r = Needs_Safety_Check checks op"
    and "on_safety_check h checks op (handler_console r) = Inr (False, w')"
  shows "step engine h r = Inr (r\<lparr>state := Aborted, handler_console := w'\<rparr>)"
  using assms by (simp add: step_def)

text \<open>
  Claim C7. When a run has reached \<open>Needs_Safety_Check\<close> and the safety-check handler
  returns false, every drive with enough transitions ends in the state \<open>Aborted\<close>,
  which is not \<open>Complete\<close>; the pending operation is not executed (the list of executed
  operations and the state of the engine are those of the suspended run), and the
  final state has no further transition.
\<close>

theorem declined_safety_check_aborts:
  assumes "run_steps k engine h r0 = Inr r"
    and "state r = Needs_Safety_Check checks op"
    and "on_safety_check h checks op (handler_console r) = Inr (False, w')"
  shows "\<exists>final. (\<forall>n. drive (k + 1 + n) engine h r0 = Some (Inr final))
     \<and> state final = Aborted \<and> (\<forall>out. state final \<noteq> Complete out)
     \<and> executed final = executed r \<and> engine_state final = engine_state r
     \<and> step engine h final = Inr final"
proof -
  let ?final = "r\<lparr>state := Aborted, handler_console := w'\<rparr>"
  have nt: "\<not> terminal (state r)" using assms(2) by simp
  have "drive (k + 1 + n) engine h r0 = Some (Inr ?final)" for n
  proof -
    have "drive (k + (1 + n)) engine h r0 = drive (1 + n) engine h r"
      by (rule drive_run_steps [OF assms(1) nt])
    also have "\<dots> = drive n engine h ?final"
      using nt step_declined [OF assms(2,3), of engine] by simp
    also have "\<dots> = Some (Inr ?final)" by (rule drive_terminal) simp
    finally show ?thesis by (simp add: add.assoc)
  qed
  moreover have "step engine h ?final = Inr ?final" by (rule step_terminal) simp
  ultimately show ?thesis by (intro exI [of _ ?final]) simp
qed

lemma safety_handler_no:
  "needs_safety_check_handler [Some ''about to click''] op declining_console =
     Inr (False, \<lparr>input_lines = [],
        printed = [[], ''Pending Safety Check: about to click'',
          ''Please acknowledge the safety check(s) in order to proceed with the computer call.'',
          ''Type 'ack' to confirm, or 'exit'/'quit': ''],
        result0 = None\<rparr>)"
  by (simp add: needs_safety_check_handler_def declining_console_def py_print_def print_check_def
      prompt_input_def py_input_def py_strip_def strip_with_def py_isspace_def is_number_space_def py_lower_def py_lower_char_def Let_def)

theorem declined_safety_check_aborts_witness:
  "run_steps 1 checking_engine linkedin_handlers (start_run ''prompt'' 0 declining_console)
     = Inr \<lparr>state = Needs_Safety_Check [Some ''about to click''] ''click'', next_request = Continue,
            engine_state = 0, executed = [], handler_console = declining_console\<rparr>
   \<and> map_sum id fst (on_safety_check linkedin_handlers [Some ''about to click''] ''click'' declining_console)
     = Inr False
   \<and> map_option (map_sum id state)
        (drive 2 checking_engine linkedin_handlers (start_run ''prompt'' 0 declining_console))
     = Some (Inr Aborted)
   \<and> map_option (map_sum id executed)
        (drive 2 checking_engine linkedin_handlers (start_run ''prompt'' 0 declining_console))
     = Some (Inr [])"
proof -
  let ?init = "start_run ''prompt'' 0 declining_console :: (nat, string) action_run"
  let ?r = "\<lparr>state = Needs_Safety_Check [Some ''about to click''] ''click'', next_request = Continue,
            engine_state = 0 :: nat, executed = [] :: string list, handler_console = declining_console\<rparr>"
  have s: "run_steps 1 checking_engine linkedin_handlers ?init = Inr ?r"
    by (simp add: step_def start_run_def)
  have st: "state ?r = Needs_Safety_Check [Some ''about to click''] ''click''" by simp
  have h: "on_safety_check linkedin_handlers [Some ''about to click''] ''click'' (handler_console ?r)
      = Inr (False, \<lparr>input_lines = [],
        printed = [[], ''Pending Safety Check: about to click'',
          ''Please acknowledge the safety check(s) in order to proceed with the computer call.'',
          ''Type 'ack' to confirm, or 'exit'/'quit': ''],
        result0 = None\<rparr>)"
    by (simp add: linkedin_handlers_def safety_handler_no)
  from declined_safety_check_aborts [OF s st h]
  obtain final where d: "\<forall>n. drive (1 + 1 + n) checking_engine linkedin_handlers ?init = Some (Inr final)"
    and f: "state final = Aborted" "executed final = executed ?r"
    by blast
  from d have "drive 2 checking_engine linkedin_handlers ?init = Some (Inr final)"
    by (metis add.right_neutral one_add_one)
  with f s h show ?thesis by simp
qed

text \<open>
  Claim C1, as amended. In \<^verbatim>\<open>concurrency_example.py\<close>, a worker that \<open>main\<close> submits
  (the month is a key of \<open>month_map\<close>, the weekend is one of \<open>weekends\<close>) and whose
  \<open>start\<close> succeeds returns normally, and its trace has one \<open>stop\<close>: after the
  \<open>start\<close> and the run of the agent, and followed by a log line only. This holds on the
  early return, on \<open>COMPLETE\<close>, \<open>ERROR\<close> and any other status, and when the run raises. In
  \<^verbatim>\<open>linkedin_example.py\<close>, \<open>main\<close> never stops the desktop it starts.
\<close>

theorem session_stopped_once:
  assumes "start_outcome env = Inr container"
    and "month_map month = Some month_name"
    and "weekend_number \<in> set weekends"
  shows "(\<exists>before outcome.
        check_flight_price env month origin destination weekend_number
          = (DesktopStart (flight_desktop weekend_number) # before
               @ [DesktopStop (flight_desktop weekend_number), Logging LogInfo], Inr outcome)
        \<and> (\<forall>d. DesktopStop d \<notin> set before) \<and> (\<forall>d. DesktopStart d \<notin> set before))
     \<and> (\<forall>d. DesktopStop d \<notin> set (fst (linkedin_main action lenv console)))"
proof
  let ?d = "flight_desktop weekend_number"
  from month_map_key [OF assms(2)] obtain m where m: "py_int month = Inr m" "1 \<le> m" "m \<le> 12"
    by blast
  from weekends_range [OF assms(3)] have w: "1 \<le> weekend_number" "weekend_number \<le> 52" by simp_all
  from dates_2025 [OF m(2,3) w]
  consider "get_nth_weekend_dates 2025 m weekend_number = Inr (None, None)"
    | f where "get_nth_weekend_dates 2025 m weekend_number = Inr (Some f, Some (f + 2))"
    by blast
  then show "\<exists>before outcome.
        check_flight_price env month origin destination weekend_number
          = (DesktopStart ?d # before @ [DesktopStop ?d, Logging LogInfo], Inr outcome)
        \<and> (\<forall>d. DesktopStop d \<notin> set before) \<and> (\<forall>d. DesktopStart d \<notin> set before)"
  proof cases
    case 1
    have "check_flight_price env month origin destination weekend_number
        = (DesktopStart ?d # [Logging LogInfo] @ [DesktopStop ?d, Logging LogInfo], Inr None)"
      unfolding check_flight_price_no_weekend [OF assms(1) m(1) 1]
      by (simp add: started_events_def stopped_events_def)
    moreover have "(\<forall>d. DesktopStop d \<notin> set [Logging LogInfo]) \<and> (\<forall>d. DesktopStart d \<notin> set [Logging LogInfo])"
      by simp
    ultimately show ?thesis by blast
  next
    case 2
    obtain tr res where ra: "run_agent env ?d month = (tr, res)" by (cases "run_agent env ?d month")
    have ns: "\<forall>d. DesktopStop d \<notin> set tr" using run_agent_no_stop [of _ env ?d month] ra by simp
    have nb: "\<forall>d. DesktopStart d \<notin> set tr" using run_agent_no_start [of _ env ?d month] ra by simp
    show ?thesis
    proof (cases res)
      case (Inr str)
      have "check_flight_price env month origin destination weekend_number
          = (DesktopStart ?d # ([Logging LogInfo, Logging LogInfo] @ tr) @ [DesktopStop ?d, Logging LogInfo],
             Inr (Some str))"
        unfolding check_flight_price_runs [OF assms(1) m(1) 2] ra Inr
        by (simp add: started_events_def stopped_events_def)
      moreover have "(\<forall>d. DesktopStop d \<notin> set ([Logging LogInfo, Logging LogInfo] @ tr))
          \<and> (\<forall>d. DesktopStart d \<notin> set ([Logging LogInfo, Logging LogInfo] @ tr))"
        using ns nb by simp
      ultimately show ?thesis by blast
    next
      case (Inl e)
      have "check_flight_price env month origin destination weekend_number
          = (DesktopStart ?d # ([Logging LogInfo, Logging LogInfo] @ tr @ [Logging LogError])
               @ [DesktopStop ?d, Logging LogInfo],
             Inr (Some (''EXCEPTION: '' @ str_exc e)))"
        unfolding check_flight_price_runs [OF assms(1) m(1) 2] ra Inl
        by (simp add: started_events_def stopped_events_def)
      moreover have "(\<forall>d. DesktopStop d \<notin> set ([Logging LogInfo, Logging LogInfo] @ tr @ [Logging LogError]))
          \<and> (\<forall>d. DesktopStart d \<notin> set ([Logging LogInfo, Logging LogInfo] @ tr @ [Logging LogError]))"
        using ns nb by simp
      ultimately show ?thesis by blast
    qed
  qed
next
  show "\<forall>d. DesktopStop d \<notin> set (fst (linkedin_main action lenv console))"
    by (simp add: linkedin_main_def Let_def split: sum.splits)
qed

theorem session_stopped_once_witness:
  "start_outcome (completing_env ''100'') = Inr ''container''
   \<and> month_map ''8'' = Some ''August'' \<and> (2::int) \<in> set weekends
   \<and> check_flight_price (completing_env ''100'') ''8'' ''SFO'' ''JFK'' 2
       = ([DesktopStart (flight_desktop 2), Logging LogInfo, Logging LogInfo,
           DesktopAction (flight_desktop 2), Logging LogInfo,
           DesktopStop (flight_desktop 2), Logging LogInfo],
          Inr (Some ''100''))
   \<and> DesktopStop new_desktop
       \<notin> set (fst (linkedin_main example_action example_linkedin_env declining_console))"
proof -
  have s: "start_outcome (completing_env ''100'') = Inr ''container''" by (simp add: completing_env_def)
  have w: "(2::int) \<in> set weekends" by (simp add: weekends_def)
  have d: "get_nth_weekend_dates 2025 8 2 = Inr (Some 8, Some 10)"
    using dates_august_2025 [of 2] by simp
  have c: "check_flight_price (completing_env ''100'') ''8'' ''SFO'' ''JFK'' 2
       = ([DesktopStart (flight_desktop 2), Logging LogInfo, Logging LogInfo,
           DesktopAction (flight_desktop 2), Logging LogInfo,
           DesktopStop (flight_desktop 2), Logging LogInfo],
          Inr (Some ''100''))"
    unfolding check_flight_price_runs [OF s py_int_keys(8) d]
    by (simp add: run_agent_completing [OF month_map_examples(2)] started_events_def stopped_events_def)
  from session_stopped_once [OF s month_map_examples(2) w]
  have "\<forall>d. DesktopStop d \<notin> set (fst (linkedin_main example_action example_linkedin_env declining_console))"
    by (rule conjunct2)
  then have "DesktopStop new_desktop
       \<notin> set (fst (linkedin_main example_action example_linkedin_env declining_console))" ..
  with s w c month_map_examples(2) show ?thesis by simp
qed

text \<open>
  Claim C1 as stated fails: \<open>main\<close> of \<^verbatim>\<open>linkedin_example.py\<close> starts a desktop, runs
  the action and returns, and its trace has no \<open>stop\<close>.
\<close>

theorem session_never_stopped_counterexample:
  "desktop_start example_linkedin_env = Inr ''container''
   \<and> fst (linkedin_main example_action example_linkedin_env declining_console)
       = [DesktopStart new_desktop, DesktopAction new_desktop]
   \<and> \<not> isl (snd (linkedin_main example_action example_linkedin_env declining_console))"
  by (simp add: linkedin_main_def example_linkedin_env_def Let_def)

end
